theory Spec2Isabelle
  imports Complex_Main "HOL-Library.FSet" "HOL-Library.Multiset"
begin

section \<open>Beacon: a hybrid text-matching engine (beacon.go)\<close>

text \<open>
  A shallow embedding of \<^verbatim>\<open>src/beacon.go\<close>. Conventions of the model:
  \<^item> a Go \<^verbatim>\<open>string\<close> is a byte sequence, here \<open>string\<close> (a \<open>char list\<close>); \<^verbatim>\<open>len\<close>,
    indexing and slicing count bytes, as in Go;
  \<^item> a Go \<^verbatim>\<open>int\<close> is an \<open>int\<close> (64-bit overflow is out of reach: every integer of the
    program is a length, a count or a distance bounded by a length);
  \<^item> a Go \<^verbatim>\<open>float64\<close> is a value of \<open>f64\<close>: a real number, or one of the IEEE special
    values the program can produce (rounding and signed zeros are not modelled);
  \<^item> a \<^verbatim>\<open>map[string]bool\<close> used as a set (every entry the program stores is \<^verbatim>\<open>true\<close>)
    is a finite set of strings, \<^verbatim>\<open>len\<close> of it the cardinality;
  \<^item> the functions of Go's \<^verbatim>\<open>strings\<close> and \<^verbatim>\<open>unicode\<close> packages that decode runes
    (\<^verbatim>\<open>Fields\<close>, \<^verbatim>\<open>FieldsFunc\<close>, \<^verbatim>\<open>ToLower\<close>, \<^verbatim>\<open>TrimSpace\<close>, \<^verbatim>\<open>IsSpace\<close>, \<^verbatim>\<open>IsUpper\<close>) and the
    NFC transform are modelled on ASCII text, where a rune is a byte;
  \<^item> a panic is a value \<open>Inl p\<close> of a sum type.
\<close>

subsection \<open>float64\<close>

datatype f64 = Fin real | PInf | NInf | NaN

fun fneg :: "f64 \<Rightarrow> f64" where
  "fneg (Fin a) = Fin (- a)"
| "fneg PInf = NInf"
| "fneg NInf = PInf"
| "fneg NaN = NaN"

fun fadd :: "f64 \<Rightarrow> f64 \<Rightarrow> f64" where
  "fadd (Fin a) (Fin b) = Fin (a + b)"
| "fadd (Fin a) PInf = PInf"
| "fadd (Fin a) NInf = NInf"
| "fadd (Fin a) NaN = NaN"
| "fadd PInf (Fin b) = PInf"
| "fadd PInf PInf = PInf"
| "fadd PInf NInf = NaN"
| "fadd PInf NaN = NaN"
| "fadd NInf (Fin b) = NInf"
| "fadd NInf PInf = NaN"
| "fadd NInf NInf = NInf"
| "fadd NInf NaN = NaN"
| "fadd NaN b = NaN"

definition fsub :: "f64 \<Rightarrow> f64 \<Rightarrow> f64" where
  "fsub a b = fadd a (fneg b)"

definition infSign :: "real \<Rightarrow> f64" where
  \<comment> \<open>an infinity times a finite factor: the sign of the factor decides, zero gives NaN\<close>
  "infSign a = (if a > 0 then PInf else if a < 0 then NInf else NaN)"

fun fmul :: "f64 \<Rightarrow> f64 \<Rightarrow> f64" where
  "fmul (Fin a) (Fin b) = Fin (a * b)"
| "fmul (Fin a) PInf = infSign a"
| "fmul (Fin a) NInf = infSign (- a)"
| "fmul (Fin a) NaN = NaN"
| "fmul PInf (Fin b) = infSign b"
| "fmul PInf PInf = PInf"
| "fmul PInf NInf = NInf"
| "fmul PInf NaN = NaN"
| "fmul NInf (Fin b) = infSign (- b)"
| "fmul NInf PInf = NInf"
| "fmul NInf NInf = PInf"
| "fmul NInf NaN = NaN"
| "fmul NaN b = NaN"

fun fdiv :: "f64 \<Rightarrow> f64 \<Rightarrow> f64" where
  "fdiv (Fin a) (Fin b) = (if b \<noteq> 0 then Fin (a / b) else infSign a)"
| "fdiv (Fin a) PInf = Fin 0"
| "fdiv (Fin a) NInf = Fin 0"
| "fdiv (Fin a) NaN = NaN"
| "fdiv PInf (Fin b) = (if b \<ge> 0 then PInf else NInf)"
| "fdiv PInf PInf = NaN"
| "fdiv PInf NInf = NaN"
| "fdiv PInf NaN = NaN"
| "fdiv NInf (Fin b) = (if b \<ge> 0 then NInf else PInf)"
| "fdiv NInf PInf = NaN"
| "fdiv NInf NInf = NaN"
| "fdiv NInf NaN = NaN"
| "fdiv NaN b = NaN"

fun fgt :: "f64 \<Rightarrow> f64 \<Rightarrow> bool" where
  "fgt (Fin a) (Fin b) = (a > b)"
| "fgt (Fin a) PInf = False"
| "fgt (Fin a) NInf = True"
| "fgt (Fin a) NaN = False"
| "fgt PInf (Fin b) = True"
| "fgt PInf PInf = False"
| "fgt PInf NInf = True"
| "fgt PInf NaN = False"
| "fgt NInf b = False"
| "fgt NaN b = False"

fun fge :: "f64 \<Rightarrow> f64 \<Rightarrow> bool" where
  "fge (Fin a) (Fin b) = (a \<ge> b)"
| "fge (Fin a) PInf = False"
| "fge (Fin a) NInf = True"
| "fge (Fin a) NaN = False"
| "fge PInf (Fin b) = True"
| "fge PInf PInf = True"
| "fge PInf NInf = True"
| "fge PInf NaN = False"
| "fge NInf (Fin b) = False"
| "fge NInf PInf = False"
| "fge NInf NInf = True"
| "fge NInf NaN = False"
| "fge NaN b = False"

fun fmin :: "f64 \<Rightarrow> f64 \<Rightarrow> f64" where
  \<comment> \<open>\<^verbatim>\<open>math.Min\<close>: \<^verbatim>\<open>-Inf\<close> wins, then \<^verbatim>\<open>NaN\<close>, then the smaller value\<close>
  "fmin NInf b = NInf"
| "fmin (Fin a) NInf = NInf"
| "fmin PInf NInf = NInf"
| "fmin NaN NInf = NInf"
| "fmin NaN (Fin b) = NaN"
| "fmin NaN PInf = NaN"
| "fmin NaN NaN = NaN"
| "fmin (Fin a) NaN = NaN"
| "fmin PInf NaN = NaN"
| "fmin (Fin a) (Fin b) = Fin (min a b)"
| "fmin (Fin a) PInf = Fin a"
| "fmin PInf (Fin b) = Fin b"
| "fmin PInf PInf = PInf"

definition float64 :: "int \<Rightarrow> f64" where
  \<comment> \<open>the conversion \<^verbatim>\<open>float64(n)\<close> of an \<^verbatim>\<open>int\<close>\<close>
  "float64 n = Fin (real_of_int n)"

subsection \<open>The helper functions \<^verbatim>\<open>min\<close> and \<^verbatim>\<open>max\<close>\<close>

definition min_go :: "int list \<Rightarrow> int" where
  "min_go values =
     (case values of
        [] \<Rightarrow> 0
      | v0 # rest \<Rightarrow> fold (\<lambda>v minVal. if v < minVal then v else minVal) rest v0)"

definition max_go :: "int \<Rightarrow> int \<Rightarrow> int" where
  "max_go a b = (if a > b then a else b)"

subsection \<open>Text primitives of the Go library, on ASCII text\<close>

definition IsSpace :: "char \<Rightarrow> bool" where
  "IsSpace c = (c \<in> set [CHR 0x09, CHR 0x0A, CHR 0x0B, CHR 0x0C, CHR 0x0D, CHR 0x20])"

definition IsUpper :: "char \<Rightarrow> bool" where
  "IsUpper c = (65 \<le> (of_char c :: nat) \<and> (of_char c :: nat) \<le> 90)"

definition ToLowerChar :: "char \<Rightarrow> char" where
  "ToLowerChar c = (if IsUpper c then char_of ((of_char c :: nat) + 32) else c)"

definition ToLower :: "string \<Rightarrow> string" where
  "ToLower s = map ToLowerChar s"

fun fieldsFrom :: "(char \<Rightarrow> bool) \<Rightarrow> string \<Rightarrow> string \<Rightarrow> string list" where
  \<comment> \<open>the scan of \<^verbatim>\<open>strings.FieldsFunc\<close>: \<open>cur\<close> is the field being read\<close>
  "fieldsFrom f cur [] = (if cur = [] then [] else [cur])"
| "fieldsFrom f cur (c # cs) =
     (if f c then (if cur = [] then fieldsFrom f [] cs else cur # fieldsFrom f [] cs)
      else fieldsFrom f (cur @ [c]) cs)"

definition FieldsFunc :: "string \<Rightarrow> (char \<Rightarrow> bool) \<Rightarrow> string list" where
  "FieldsFunc s f = fieldsFrom f [] s"

definition Fields :: "string \<Rightarrow> string list" where
  "Fields s = FieldsFunc s IsSpace"

fun Join :: "string list \<Rightarrow> string \<Rightarrow> string" where
  "Join [] sep = []"
| "Join [w] sep = w"
| "Join (w # v # ws) sep = w @ sep @ Join (v # ws) sep"

definition TrimSpace :: "string \<Rightarrow> string" where
  "TrimSpace s = rev (dropWhile IsSpace (rev (dropWhile IsSpace s)))"

definition HasPrefix :: "string \<Rightarrow> string \<Rightarrow> bool" where
  "HasPrefix s p = (length s \<ge> length p \<and> take (length p) s = p)"

fun Contains :: "string \<Rightarrow> string \<Rightarrow> bool" where
  "Contains [] substr = (substr = [])"
| "Contains (c # cs) substr = (HasPrefix (c # cs) substr \<or> Contains cs substr)"

datatype panic = NegativeRepeatCount

definition Repeat :: "string \<Rightarrow> int \<Rightarrow> panic + string" where
  "Repeat s cnt =
     (if cnt < 0 then Inl NegativeRepeatCount else Inr (concat (replicate (nat cnt) s)))"

definition NFC :: "string \<Rightarrow> string" where
  \<comment> \<open>\<^verbatim>\<open>transform.String(transform.Chain(norm.NFC), text)\<close>: ASCII text is already composed\<close>
  "NFC text = text"

subsection \<open>Utility functions\<close>

definition normalizeText :: "string \<Rightarrow> string" where
  "normalizeText text = (let normalized = NFC text in Join (Fields normalized) '' '')"

definition extractWords :: "string \<Rightarrow> string list" where
  "extractWords text =
     (let words = FieldsFunc text
            (\<lambda>r. IsSpace r \<or> r = CHR ''-'' \<or> r = CHR '','' \<or> r = CHR ''.'')
      in filter (\<lambda>word. word \<noteq> []) words)"

definition createWordSet :: "string list \<Rightarrow> string fset" where
  "createWordSet words = fold (\<lambda>word set. finsert word set) words {||}"

definition createCharNgrams :: "string \<Rightarrow> int \<Rightarrow> panic + string fset" where
  "createCharNgrams text n =
     (if int (length text) < n then Inr {|text|}
      else case Repeat ''#'' (n - 1) of
        Inl p \<Rightarrow> Inl p
      | Inr padding \<Rightarrow>
          (let padded = padding @ text @ padding
           in Inr (fold (\<lambda>i ngrams. finsert (take (nat n) (drop i padded)) ngrams)
                     [0..<nat (int (length padded) - n + 1)] {||})))"

definition extractFirstLetters :: "string list \<Rightarrow> string" where
  "extractFirstLetters words =
     fold (\<lambda>word letters. if length word > 0 then letters @ [word ! 0] else letters) words []"

definition acronymStep :: "string \<Rightarrow> string \<Rightarrow> string" where
  \<comment> \<open>one iteration of the loop of \<^verbatim>\<open>extractAcronym\<close>\<close>
  "acronymStep word acronym =
     (let lower = ToLower word
      in if lower = ''de'' \<or> lower = ''del'' \<or> lower = ''la'' \<or> lower = ''el'' \<or>
            lower = ''los'' \<or> lower = ''las'' \<or> lower = ''y'' \<or> lower = ''e'' \<or>
            lower = ''of'' \<or> lower = ''the'' \<or> lower = ''and'' \<or> lower = ''or''
         then acronym
         else if length word > 0 \<and> IsUpper (word ! 0) then acronym @ [word ! 0]
         else acronym)"

definition extractAcronym :: "string \<Rightarrow> string" where
  "extractAcronym text = (let words = Fields text in ToLower (fold acronymStep words []))"

definition calculateJaccardSimilarity :: "string fset \<Rightarrow> string fset \<Rightarrow> f64" where
  "calculateJaccardSimilarity set1 set2 =
     (if fcard set1 = 0 \<and> fcard set2 = 0 then Fin 1
      else if fcard set1 = 0 \<or> fcard set2 = 0 then Fin 0
      else let intersection = int (fcard (ffilter (\<lambda>item. item |\<in>| set2) set1));
               union = int (fcard set1) + int (fcard set2) - intersection
           in if union = 0 then Fin 0 else fdiv (float64 intersection) (float64 union))"

subsection \<open>Levenshtein distance\<close>

definition initMatrix :: "nat \<Rightarrow> nat \<Rightarrow> int list list" where
  \<comment> \<open>the two loops that create the matrix \<^verbatim>\<open>dist\<close> and set its first column and first row\<close>
  "initMatrix len1 len2 =
     (let distm = map (\<lambda>i. (replicate (len2 + 1) 0)[0 := int i]) [0..<len1 + 1]
      in fold (\<lambda>j distm. distm[0 := (distm ! 0)[j := int j]]) [1..<len2 + 1] distm)"

definition fillCell :: "string \<Rightarrow> string \<Rightarrow> nat \<Rightarrow> nat \<Rightarrow> int list list \<Rightarrow> int list list" where
  \<comment> \<open>the body of the inner loop\<close>
  "fillCell s1 s2 i j distm =
     (let cost = (if s1 ! (i - 1) \<noteq> s2 ! (j - 1) then 1 else 0)
      in distm[i := (distm ! i)[j := min_go [distm ! (i - 1) ! j + 1,
                                            distm ! i ! (j - 1) + 1,
                                            distm ! (i - 1) ! (j - 1) + cost]]])"

definition fillMatrix :: "string \<Rightarrow> string \<Rightarrow> int list list \<Rightarrow> int list list" where
  "fillMatrix s1 s2 distm =
     fold (\<lambda>i distm. fold (\<lambda>j distm. fillCell s1 s2 i j distm) [1..<length s2 + 1] distm)
       [1..<length s1 + 1] distm"

definition calculateLevenshteinDistance :: "string \<Rightarrow> string \<Rightarrow> int" where
  "calculateLevenshteinDistance s1 s2 =
     (if s1 = s2 then 0
      else let len1 = length s1; len2 = length s2
           in if len1 = 0 then int len2
              else if len2 = 0 then int len1
              else fillMatrix s1 s2 (initMatrix len1 len2) ! len1 ! len2)"

fun editDistance :: "string \<Rightarrow> string \<Rightarrow> nat" where
  \<comment> \<open>the textbook recurrence, used only to state what the matrix holds\<close>
  "editDistance [] ys = length ys"
| "editDistance (x # xs) [] = Suc (length xs)"
| "editDistance (x # xs) (y # ys) =
     min (min (editDistance xs (y # ys) + 1) (editDistance (x # xs) ys + 1))
         (editDistance xs ys + (if x \<noteq> y then 1 else 0))"


definition cellDistance :: "string \<Rightarrow> string \<Rightarrow> nat \<Rightarrow> nat \<Rightarrow> int" where
  \<comment> \<open>what cell \<open>(i, j)\<close> of the finished matrix holds: the distance between two prefixes\<close>
  "cellDistance s1 s2 i j = int (editDistance (rev (take i s1)) (rev (take j s2)))"

definition matrixDims :: "nat \<Rightarrow> nat \<Rightarrow> int list list \<Rightarrow> bool" where
  "matrixDims len1 len2 m = (length m = len1 + 1 \<and> (\<forall>i \<le> len1. length (m ! i) = len2 + 1))"

definition filledUpTo :: "string \<Rightarrow> string \<Rightarrow> int list list \<Rightarrow> nat \<Rightarrow> nat \<Rightarrow> bool" where
  \<comment> \<open>the loop invariant: row 0, column 0 and every cell before \<open>(i, j)\<close> are final\<close>
  "filledUpTo s1 s2 m i j =
     (matrixDims (length s1) (length s2) m \<and>
      (\<forall>i' j'. i' \<le> length s1 \<longrightarrow> j' \<le> length s2 \<longrightarrow>
         (i' = 0 \<or> j' = 0 \<or> i' < i \<or> (i' = i \<and> j' < j)) \<longrightarrow>
         m ! i' ! j' = cellDistance s1 s2 i' j'))"

subsection \<open>The data model\<close>

record ScoreComponents =
  ExactMatch :: f64
  PrefixMatch :: f64
  WordMatch :: f64
  SubstringMatch :: f64
  TrigramSimilarity :: f64
  BigramSimilarity :: f64
  AcronymMatch :: f64
  LevenshteinSim :: f64
  FinalScore :: f64

record 'i SearchIndex =
  Item :: 'i
  NormalizedText :: string
  LowercaseText :: string
  Words :: "string list"
  WordSet :: "string fset"
  Trigrams :: "string fset"
  Bigrams :: "string fset"
  FirstLetters :: string
  Acronym :: string
  TextLength :: int

text \<open>
  The interface \<^verbatim>\<open>Filter\<close> is a record of its two methods; the interface \<^verbatim>\<open>Searchable\<close> is
  the type parameter \<open>'i\<close>, and its method \<^verbatim>\<open>GetSearchText\<close> is passed where the
  constructor calls it. A \<^verbatim>\<open>nil\<close> filter or pointer is \<open>None\<close>.
\<close>

record 'i Filter =
  Matches :: "'i \<Rightarrow> bool"
  Description :: string

record 'i SearchRequest =
  Query :: string
  Filters :: "'i Filter option"
  TopN :: "int option"
  Debug :: "bool option"

record DebugInfo =
  QueryNormalized :: string
  DebugComponents :: "ScoreComponents option"
  FilteredCandidates :: int
  TotalCandidates :: int

text \<open>
  Field names are global in a theory, so the fields of the two response structs that share
  a name with an earlier struct carry a prefix: \<open>RItem\<close>, \<open>RDebug\<close> for \<^verbatim>\<open>Item\<close>, \<^verbatim>\<open>Debug\<close> of
  \<^verbatim>\<open>SearchResponse\<close>; \<open>MQuery\<close>, \<open>MFilters\<close>, \<open>MMessage\<close> for \<^verbatim>\<open>Query\<close>, \<^verbatim>\<open>Filters\<close>, \<^verbatim>\<open>Message\<close>
  of \<^verbatim>\<open>MultiSearchResponse\<close>; \<open>DebugComponents\<close> for \<^verbatim>\<open>ScoreComponents\<close> of \<^verbatim>\<open>DebugInfo\<close>.
\<close>

record 'i SearchResponse =
  RItem :: "'i option"
  Similarity :: f64
  Message :: string
  Error :: string
  RDebug :: "DebugInfo option"

record 'i MultiSearchResponse =
  Results :: "'i SearchResponse list"
  MQuery :: string
  TotalFound :: int
  MFilters :: "'i Filter option"
  MMessage :: string

datatype 'i outcome = Single "'i SearchResponse" | Multi "'i MultiSearchResponse"

record 'i ImprovedSearcher =
  items :: "'i list"
  searchIndex :: "'i SearchIndex list"
  debugMode :: bool
  minSimilarity :: f64

record 'i scoredResult =
  index :: "'i SearchIndex"
  score :: f64
  components :: ScoreComponents

subsection \<open>\<^verbatim>\<open>NewImprovedSearcher\<close>\<close>

definition indexItem :: "('i \<Rightarrow> string) \<Rightarrow> 'i \<Rightarrow> panic + 'i SearchIndex" where
  \<comment> \<open>the body of the constructor's loop\<close>
  "indexItem GetSearchText item =
     (let searchText = GetSearchText item;
          normalizedText = normalizeText searchText;
          lowercaseText = ToLower normalizedText;
          words = extractWords lowercaseText
      in case createCharNgrams lowercaseText 3 of
           Inl p \<Rightarrow> Inl p
         | Inr trigrams \<Rightarrow>
             (case createCharNgrams lowercaseText 2 of
                Inl p \<Rightarrow> Inl p
              | Inr bigrams \<Rightarrow>
                  Inr \<lparr>Item = item,
                       NormalizedText = normalizedText,
                       LowercaseText = lowercaseText,
                       Words = words,
                       WordSet = createWordSet words,
                       Trigrams = trigrams,
                       Bigrams = bigrams,
                       FirstLetters = extractFirstLetters words,
                       Acronym = extractAcronym searchText,
                       TextLength = int (length lowercaseText)\<rparr>))"

fun indexItems :: "('i \<Rightarrow> string) \<Rightarrow> 'i list \<Rightarrow> panic + 'i SearchIndex list" where
  "indexItems GetSearchText [] = Inr []"
| "indexItems GetSearchText (item # rest) =
     (case indexItem GetSearchText item of
        Inl p \<Rightarrow> Inl p
      | Inr entry \<Rightarrow>
          (case indexItems GetSearchText rest of
             Inl p \<Rightarrow> Inl p
           | Inr entries \<Rightarrow> Inr (entry # entries)))"

definition NewImprovedSearcher ::
  "('i \<Rightarrow> string) \<Rightarrow> 'i list \<Rightarrow> f64 \<Rightarrow> bool \<Rightarrow> panic + 'i ImprovedSearcher" where
  "NewImprovedSearcher GetSearchText its minSim dbg =
     (case indexItems GetSearchText its of
        Inl p \<Rightarrow> Inl p
      | Inr idx \<Rightarrow>
          Inr \<lparr>items = its, searchIndex = idx, debugMode = dbg, minSimilarity = minSim\<rparr>)"

subsection \<open>\<^verbatim>\<open>calculateScore\<close>\<close>

definition zeroComponents :: ScoreComponents where
  \<comment> \<open>the zero value \<^verbatim>\<open>ScoreComponents{}\<close>\<close>
  "zeroComponents =
     \<lparr>ExactMatch = Fin 0, PrefixMatch = Fin 0, WordMatch = Fin 0, SubstringMatch = Fin 0,
      TrigramSimilarity = Fin 0, BigramSimilarity = Fin 0, AcronymMatch = Fin 0,
      LevenshteinSim = Fin 0, FinalScore = Fin 0\<rparr>"

fun scanWords :: "string \<Rightarrow> string list \<Rightarrow> bool" where
  \<comment> \<open>the inner loop of the word match: is \<open>qWord\<close> hit by some word of the item?\<close>
  "scanWords qWord [] = False"
| "scanWords qWord (sWord # rest) =
     (if sWord = qWord then True
      else if length qWord \<ge> 3 \<and> HasPrefix sWord qWord then True
      else scanWords qWord rest)"

definition countMatchedWords :: "string list \<Rightarrow> string list \<Rightarrow> int" where
  "countMatchedWords queryWords ws =
     fold (\<lambda>qWord matchedWords. if scanWords qWord ws then matchedWords + 1 else matchedWords)
       queryWords 0"

definition calculateScore_signals ::
  "'i SearchIndex \<Rightarrow> string \<Rightarrow> string list \<Rightarrow> string fset \<Rightarrow> string fset \<Rightarrow> string fset \<Rightarrow>
     string \<Rightarrow> ScoreComponents" where
  \<comment> \<open>the first half of \<^verbatim>\<open>calculateScore\<close>: the eight components\<close>
  "calculateScore_signals idx queryLower queryWords queryWordSet queryTrigrams queryBigrams
       queryAcronym =
     (let c = zeroComponents;
          c = (if LowercaseText idx = queryLower then c\<lparr>ExactMatch := Fin 1\<rparr> else c);
          c = (if HasPrefix (LowercaseText idx) queryLower then c\<lparr>PrefixMatch := Fin 0.9\<rparr>
               else if length queryLower \<ge> 3 \<and> HasPrefix (LowercaseText idx) (take 3 queryLower)
               then c\<lparr>PrefixMatch := Fin 0.5\<rparr>
               else c);
          matchedWords = countMatchedWords queryWords (Words idx);
          totalWords = int (length queryWords);
          c = (if totalWords > 0
               then (let c = c\<lparr>WordMatch := fdiv (float64 matchedWords) (float64 totalWords)\<rparr>
                     in if matchedWords = totalWords
                        then c\<lparr>WordMatch := fmin (fmul (WordMatch c) (Fin 1.2)) (Fin 1)\<rparr>
                        else c)
               else c);
          c = (if Contains (LowercaseText idx) queryLower
               then (let lengthRatio =
                           fdiv (float64 (int (length queryLower))) (float64 (TextLength idx))
                     in c\<lparr>SubstringMatch := fadd (Fin 0.7) (fmul (Fin 0.3) lengthRatio)\<rparr>)
               else c);
          c = c\<lparr>TrigramSimilarity := calculateJaccardSimilarity queryTrigrams (Trigrams idx)\<rparr>;
          c = c\<lparr>BigramSimilarity := calculateJaccardSimilarity queryBigrams (Bigrams idx)\<rparr>;
          c = (if queryAcronym \<noteq> [] \<and> queryAcronym = Acronym idx
               then c\<lparr>AcronymMatch := Fin 0.8\<rparr> else c);
          levDist = calculateLevenshteinDistance queryLower (LowercaseText idx);
          maxLen = max_go (int (length queryLower)) (TextLength idx);
          c = (if maxLen > 0
               then c\<lparr>LevenshteinSim := fsub (Fin 1) (fdiv (float64 levDist) (float64 maxLen))\<rparr>
               else c)
      in c)"

definition weights :: "string \<Rightarrow> f64" where
  \<comment> \<open>the map literal \<^verbatim>\<open>weights\<close>; a missing key reads as the zero value\<close>
  "weights key =
     (case map_of [(''exact'', 1.0), (''prefix'', 0.9), (''word'', 0.85), (''substring'', 0.75),
                   (''trigram'', 0.6), (''bigram'', 0.4), (''acronym'', 0.7),
                   (''levenshtein'', 0.5 :: real)] key of
        Some w \<Rightarrow> Fin w
      | None \<Rightarrow> Fin 0)"

definition addWeighted :: "f64 \<Rightarrow> string \<Rightarrow> f64 \<times> f64 \<Rightarrow> f64 \<times> f64" where
  \<comment> \<open>one of the eight \<^verbatim>\<open>if component > 0\<close> blocks, on the pair \<open>(weightedSum, totalWeight)\<close>\<close>
  "addWeighted component key acc =
     (if fgt component (Fin 0)
      then (fadd (fst acc) (fmul component (weights key)), fadd (snd acc) (weights key))
      else acc)"

definition weightedTotals :: "ScoreComponents \<Rightarrow> f64 \<times> f64" where
  "weightedTotals c =
     (let acc = (Fin 0, Fin 0);
          acc = addWeighted (ExactMatch c) ''exact'' acc;
          acc = addWeighted (PrefixMatch c) ''prefix'' acc;
          acc = addWeighted (WordMatch c) ''word'' acc;
          acc = addWeighted (SubstringMatch c) ''substring'' acc;
          acc = addWeighted (TrigramSimilarity c) ''trigram'' acc;
          acc = addWeighted (BigramSimilarity c) ''bigram'' acc;
          acc = addWeighted (AcronymMatch c) ''acronym'' acc;
          acc = addWeighted (LevenshteinSim c) ''levenshtein'' acc
      in acc)"

definition calculateScore_final :: "string \<Rightarrow> ScoreComponents \<Rightarrow> ScoreComponents" where
  \<comment> \<open>the second half of \<^verbatim>\<open>calculateScore\<close>: the weighted final score and the two bonuses\<close>
  "calculateScore_final queryLower c =
     (let weightedSum = fst (weightedTotals c);
          totalWeight = snd (weightedTotals c)
      in if fgt totalWeight (Fin 0)
         then (let c = c\<lparr>FinalScore := fdiv weightedSum totalWeight\<rparr>;
                   c = (if length queryLower \<le> 10 \<and> fgt (ExactMatch c) (Fin 0)
                        then c\<lparr>FinalScore := Fin 1\<rparr> else c);
                   c = (if fge (WordMatch c) (Fin 0.8) \<and> fgt (SubstringMatch c) (Fin 0)
                        then c\<lparr>FinalScore := fmin (fmul (FinalScore c) (Fin 1.1)) (Fin 1)\<rparr>
                        else c)
               in c)
         else c)"

definition calculateScore ::
  "'i SearchIndex \<Rightarrow> string \<Rightarrow> string list \<Rightarrow> string fset \<Rightarrow> string fset \<Rightarrow> string fset \<Rightarrow>
     string \<Rightarrow> ScoreComponents" where
  \<comment> \<open>the receiver \<^verbatim>\<open>is\<close> is not read by the method and is left out\<close>
  "calculateScore idx queryLower queryWords queryWordSet queryTrigrams queryBigrams queryAcronym =
     calculateScore_final queryLower
       (calculateScore_signals idx queryLower queryWords queryWordSet queryTrigrams queryBigrams
          queryAcronym)"


subsection \<open>\<^verbatim>\<open>filterItems\<close> and \<^verbatim>\<open>Search\<close>\<close>

definition filterItems :: "'i ImprovedSearcher \<Rightarrow> 'i Filter option \<Rightarrow> 'i SearchIndex list" where
  "filterItems is flt =
     (case flt of
        None \<Rightarrow> searchIndex is
      | Some f \<Rightarrow>
          fold (\<lambda>idx filtered. if Matches f (Item idx) then filtered @ [idx] else filtered)
            (searchIndex is) [])"

fun digits :: "nat \<Rightarrow> string" where
  "digits n = (if n < 10 then [char_of (48 + n)] else digits (n div 10) @ [char_of (48 + n mod 10)])"

definition itoa :: "int \<Rightarrow> string" where
  \<comment> \<open>the verb \<^verbatim>\<open>%d\<close> of \<^verbatim>\<open>fmt.Sprintf\<close>\<close>
  "itoa n = (if n < 0 then CHR ''-'' # digits (nat (- n)) else digits (nat n))"

definition errorResponse :: "string \<Rightarrow> 'i SearchResponse" where
  \<comment> \<open>\<^verbatim>\<open>SearchResponse[T]{Error: message}\<close>: every other field has its zero value\<close>
  "errorResponse message =
     \<lparr>RItem = None, Similarity = Fin 0, Message = [], Error = message, RDebug = None\<rparr>"

definition scoreCandidates ::
  "'i ImprovedSearcher \<Rightarrow> 'i SearchIndex list \<Rightarrow> string \<Rightarrow> string list \<Rightarrow> string fset \<Rightarrow>
     string fset \<Rightarrow> string fset \<Rightarrow> string \<Rightarrow> 'i scoredResult list" where
  \<comment> \<open>the loop of \<^verbatim>\<open>Search\<close> that scores every candidate and keeps those over the threshold\<close>
  "scoreCandidates is candidates lowercaseQuery queryWords queryWordSet queryTrigrams
       queryBigrams queryAcronym =
     fold (\<lambda>idx results.
             (let c = calculateScore idx lowercaseQuery queryWords queryWordSet queryTrigrams
                        queryBigrams queryAcronym
              in if fge (FinalScore c) (fmul (minSimilarity is) (Fin 0.5))
                 then results @ [\<lparr>index = idx, score = FinalScore c, components = c\<rparr>]
                 else results))
       candidates []"

definition clampTopN :: "int option \<Rightarrow> int \<Rightarrow> int" where
  \<comment> \<open>\<^verbatim>\<open>topN\<close> as \<^verbatim>\<open>Search\<close> computes it from \<^verbatim>\<open>req.TopN\<close> and \<^verbatim>\<open>len(results)\<close>\<close>
  "clampTopN reqTopN nResults =
     (let topN = (case reqTopN of
                    None \<Rightarrow> 1
                  | Some t \<Rightarrow> if t < 1 then 1 else if t > 10 then 10 else t);
          topN = (if topN > nResults then nResults else topN)
      in topN)"

definition debugInfo ::
  "'i ImprovedSearcher \<Rightarrow> 'i SearchRequest \<Rightarrow> string \<Rightarrow> 'i scoredResult \<Rightarrow> int \<Rightarrow>
     DebugInfo option" where
  "debugInfo is req normalizedQuery result nCandidates =
     (if debugMode is \<or> (Debug req \<noteq> None \<and> the (Debug req))
      then Some \<lparr>QueryNormalized = normalizedQuery,
                 DebugComponents = Some (components result),
                 FilteredCandidates = nCandidates,
                 TotalCandidates = int (length (searchIndex is))\<rparr>
      else None)"

definition rankedResponse ::
  "(f64 \<Rightarrow> string) \<Rightarrow> 'i ImprovedSearcher \<Rightarrow> 'i SearchRequest \<Rightarrow> string \<Rightarrow> int \<Rightarrow>
     'i scoredResult list \<Rightarrow> nat \<Rightarrow> 'i SearchResponse" where
  \<comment> \<open>the body of the loop that fills \<^verbatim>\<open>responses[i]\<close>\<close>
  "rankedResponse fmt2f is req normalizedQuery nCandidates results i =
     (let result = results ! i
      in \<lparr>RItem = Some (Item (index result)),
          Similarity = score result,
          Message = ''Rank '' @ itoa (int i + 1) @ '' with '' @
                    fmt2f (fmul (score result) (Fin 100)) @ ''% similarity'',
          Error = [],
          RDebug = debugInfo is req normalizedQuery result nCandidates\<rparr>)"

definition bestResponse ::
  "(f64 \<Rightarrow> string) \<Rightarrow> 'i ImprovedSearcher \<Rightarrow> 'i SearchRequest \<Rightarrow> string \<Rightarrow> int \<Rightarrow>
     'i scoredResult list \<Rightarrow> 'i SearchResponse" where
  "bestResponse fmt2f is req normalizedQuery nCandidates results =
     (let best = results ! 0
      in \<lparr>RItem = Some (Item (index best)),
          Similarity = score best,
          Message = ''Found item with '' @ fmt2f (fmul (score best) (Fin 100)) @ ''% similarity'',
          Error = [],
          RDebug = debugInfo is req normalizedQuery best nCandidates\<rparr>)"

text \<open>
  \<^verbatim>\<open>Search\<close> has two collaborators outside the repository: \<^verbatim>\<open>sort.Slice\<close> (an unstable sort,
  so the order of equal scores is not fixed) and the verb \<^verbatim>\<open>%.2f\<close> of \<^verbatim>\<open>fmt.Sprintf\<close>. Both
  are parameters of the model, \<open>sortSlice\<close> and \<open>fmt2f\<close>. The searcher is passed and returned:
  the second component of the result is the searcher after the call.
\<close>

definition Search ::
  "('i scoredResult list \<Rightarrow> 'i scoredResult list) \<Rightarrow> (f64 \<Rightarrow> string) \<Rightarrow>
     'i ImprovedSearcher \<Rightarrow> 'i SearchRequest \<Rightarrow> panic + ('i outcome \<times> 'i ImprovedSearcher)" where
  "Search sortSlice fmt2f is req =
     (if TrimSpace (Query req) = [] then Inr (Single (errorResponse ''Query cannot be empty''), is)
      else
        (let normalizedQuery = normalizeText (Query req);
             lowercaseQuery = ToLower normalizedQuery;
             queryWords = extractWords lowercaseQuery;
             queryWordSet = createWordSet queryWords
         in case createCharNgrams lowercaseQuery 3 of
              Inl p \<Rightarrow> Inl p
            | Inr queryTrigrams \<Rightarrow>
                (case createCharNgrams lowercaseQuery 2 of
                   Inl p \<Rightarrow> Inl p
                 | Inr queryBigrams \<Rightarrow>
                     (let queryAcronym = extractAcronym (Query req);
                          candidates = filterItems is (Filters req)
                      in if length candidates = 0
                         then Inr (Single (errorResponse
                                (case Filters req of
                                   None \<Rightarrow> ''No items found matching the filter criteria''
                                 | Some f \<Rightarrow> ''No items found matching filter: '' @ Description f)),
                               is)
                         else
                           (let results = scoreCandidates is candidates lowercaseQuery queryWords
                                            queryWordSet queryTrigrams queryBigrams queryAcronym;
                                results = sortSlice results;
                                topN = clampTopN (TopN req) (int (length results));
                                nCandidates = int (length candidates)
                            in if topN = 0
                               then Inr (Single (errorResponse
                                      (''No matches found for '' @ [CHR 0x27] @ Query req @
                                       [CHR 0x27])), is)
                               else if topN > 1
                               then Inr (Multi
                                      \<lparr>Results = map (rankedResponse fmt2f is req normalizedQuery
                                                        nCandidates results) [0..<nat topN],
                                       MQuery = Query req,
                                       TotalFound = nCandidates,
                                       MFilters = Filters req,
                                       MMessage = ''Found '' @ itoa nCandidates @ '' items'' @
                                         (case Filters req of
                                            None \<Rightarrow> []
                                          | Some f \<Rightarrow> '' with filter: '' @ Description f) @
                                         '' matching '' @ [CHR 0x27] @ Query req @ [CHR 0x27]\<rparr>,
                                     is)
                               else Inr (Single (bestResponse fmt2f is req normalizedQuery
                                                   nCandidates results), is))))))"

subsection \<open>What \<^verbatim>\<open>sort.Slice\<close> promises, and one sort that keeps the promise\<close>

definition sortsDescending ::
  "('i scoredResult list \<Rightarrow> 'i scoredResult list) \<Rightarrow> bool" where
  \<comment> \<open>on scores without NaN, where \<^verbatim>\<open>results[i].score > results[j].score\<close> is a strict weak
      order: the result is a permutation, and no later element is greater than an earlier one\<close>
  "sortsDescending sortSlice =
     (\<forall>xs. (\<forall>x \<in> set xs. score x \<noteq> NaN) \<longrightarrow>
        mset (sortSlice xs) = mset xs \<and>
        sorted_wrt (\<lambda>a b. \<not> fgt (score b) (score a)) (sortSlice xs))"

fun insertByScore :: "'i scoredResult \<Rightarrow> 'i scoredResult list \<Rightarrow> 'i scoredResult list" where
  "insertByScore x [] = [x]"
| "insertByScore x (y # ys) =
     (if fgt (score y) (score x) then y # insertByScore x ys else x # y # ys)"

definition insertionSort :: "'i scoredResult list \<Rightarrow> 'i scoredResult list" where
  "insertionSort xs = foldr insertByScore xs []"


subsection \<open>Definitions used to state the properties\<close>

definition paddedText :: "string \<Rightarrow> int \<Rightarrow> string" where
  \<comment> \<open>the text with \<open>n - 1\<close> copies of \<^verbatim>\<open>#\<close> on both ends, as the n-gram generator pads it\<close>
  "paddedText text n = replicate (nat (n - 1)) CHR ''#'' @ text @ replicate (nat (n - 1)) CHR ''#''"

text \<open>
  The combination rule in the words of the specification: each component with its fixed
  weight; only the strictly positive components count, in the weighted sum and in the
  weight total; the score is their quotient, or 0.0 when no component is positive.
\<close>

definition spec_components :: "ScoreComponents \<Rightarrow> (f64 \<times> real) list" where
  "spec_components c =
     [(ExactMatch c, 1.0), (PrefixMatch c, 0.9), (WordMatch c, 0.85), (SubstringMatch c, 0.75),
      (TrigramSimilarity c, 0.6), (BigramSimilarity c, 0.4), (AcronymMatch c, 0.7),
      (LevenshteinSim c, 0.5)]"

definition spec_positive :: "ScoreComponents \<Rightarrow> (f64 \<times> real) list" where
  "spec_positive c = filter (\<lambda>p. fgt (fst p) (Fin 0)) (spec_components c)"

definition spec_weightedSum :: "ScoreComponents \<Rightarrow> f64" where
  "spec_weightedSum c = foldl fadd (Fin 0) (map (\<lambda>p. fmul (fst p) (Fin (snd p))) (spec_positive c))"

definition spec_totalWeight :: "ScoreComponents \<Rightarrow> f64" where
  "spec_totalWeight c = foldl fadd (Fin 0) (map (\<lambda>p. Fin (snd p)) (spec_positive c))"

definition spec_finalScore :: "ScoreComponents \<Rightarrow> f64" where
  "spec_finalScore c =
     (if spec_positive c = [] then Fin 0 else fdiv (spec_weightedSum c) (spec_totalWeight c))"

text \<open>Definitions for the proofs.\<close>

definition weighStep :: "f64 \<times> f64 \<Rightarrow> f64 \<times> real \<Rightarrow> f64 \<times> f64" where
  "weighStep acc p =
     (if fgt (fst p) (Fin 0)
      then (fadd (fst acc) (fmul (fst p) (Fin (snd p))), fadd (snd acc) (Fin (snd p)))
      else acc)"

definition ngramsOf :: "string \<Rightarrow> int \<Rightarrow> string fset" where
  \<comment> \<open>the set \<^verbatim>\<open>createCharNgrams\<close> returns when it does not panic\<close>
  "ngramsOf text n = (case createCharNgrams text n of Inr s \<Rightarrow> s | Inl p \<Rightarrow> {||})"

definition finiteOrPInf :: "f64 \<Rightarrow> bool" where
  "finiteOrPInf x = (case x of Fin a \<Rightarrow> True | PInf \<Rightarrow> True | NInf \<Rightarrow> False | NaN \<Rightarrow> False)"

definition index_a :: "string SearchIndex" where
  \<comment> \<open>the index entry of an item whose text is \<^verbatim>\<open>a\<close>\<close>
  "index_a =
     \<lparr>Item = ''a'', NormalizedText = ''a'', LowercaseText = ''a'', Words = [''a''],
      WordSet = {|''a''|}, Trigrams = {|''a''|}, Bigrams = {|''a''|}, FirstLetters = ''a'',
      Acronym = [], TextLength = 1\<rparr>"

definition index_lotr :: "string SearchIndex" where
  \<comment> \<open>the index entry of an item whose text is \<^verbatim>\<open>The Lord of the Rings\<close>\<close>
  "index_lotr =
     \<lparr>Item = ''The Lord of the Rings'',
      NormalizedText = ''The Lord of the Rings'',
      LowercaseText = ''the lord of the rings'',
      Words = [''the'', ''lord'', ''of'', ''the'', ''rings''],
      WordSet = {|''the'', ''lord'', ''of'', ''rings''|},
      Trigrams = ngramsOf ''the lord of the rings'' 3,
      Bigrams = ngramsOf ''the lord of the rings'' 2,
      FirstLetters = ''tlotr'',
      Acronym = ''lr'',
      TextLength = 21\<rparr>"

text \<open>The values \<^verbatim>\<open>Search\<close> computes on its way, named to state its properties.\<close>

definition queryScore :: "'i SearchRequest \<Rightarrow> 'i SearchIndex \<Rightarrow> ScoreComponents" where
  \<comment> \<open>the components \<^verbatim>\<open>Search\<close> computes for the candidate \<open>idx\<close> of the request \<open>req\<close>\<close>
  "queryScore req idx =
     (let lowercaseQuery = ToLower (normalizeText (Query req));
          queryWords = extractWords lowercaseQuery
      in calculateScore idx lowercaseQuery queryWords (createWordSet queryWords)
           (ngramsOf lowercaseQuery 3) (ngramsOf lowercaseQuery 2) (extractAcronym (Query req)))"

definition coarseThreshold :: "'i ImprovedSearcher \<Rightarrow> f64" where
  \<comment> \<open>\<^verbatim>\<open>is.minSimilarity*0.5\<close>\<close>
  "coarseThreshold is = fmul (minSimilarity is) (Fin 0.5)"

definition survivors :: "'i ImprovedSearcher \<Rightarrow> 'i SearchRequest \<Rightarrow> 'i SearchIndex list" where
  \<comment> \<open>the candidates of the request whose score reaches the coarse threshold\<close>
  "survivors is req =
     filter (\<lambda>idx. fge (FinalScore (queryScore req idx)) (coarseThreshold is))
       (filterItems is (Filters req))"

definition scored :: "'i SearchRequest \<Rightarrow> 'i SearchIndex \<Rightarrow> 'i scoredResult" where
  "scored req idx =
     \<lparr>index = idx, score = FinalScore (queryScore req idx), components = queryScore req idx\<rparr>"

definition responseItems :: "'i SearchResponse \<Rightarrow> 'i list" where
  "responseItems r = (case RItem r of None \<Rightarrow> [] | Some it \<Rightarrow> [it])"

definition outcomeItems :: "'i outcome \<Rightarrow> 'i list" where
  \<comment> \<open>every item an outcome carries\<close>
  "outcomeItems out =
     (case out of
        Single r \<Rightarrow> responseItems r
      | Multi m \<Rightarrow> concat (map responseItems (Results m)))"

definition noMatches :: "'i SearchRequest \<Rightarrow> 'i SearchResponse" where
  "noMatches req =
     \<lparr>RItem = None, Similarity = Fin 0, Message = [],
      Error = ''No matches found for '' @ [CHR 0x27] @ Query req @ [CHR 0x27],
      RDebug = None\<rparr>"

text \<open>A small dataset, a filter and requests, for concrete runs.\<close>

definition searcher_demo :: "string ImprovedSearcher" where
  "searcher_demo =
     \<lparr>items = [''a'', ''The Lord of the Rings''], searchIndex = [index_a, index_lotr],
      debugMode = False, minSimilarity = Fin 0.3\<rparr>"

definition filter_a :: "string Filter" where
  "filter_a = \<lparr>Matches = (\<lambda>it. it = ''a''), Description = ''text is a''\<rparr>"

definition request :: "string \<Rightarrow> string Filter option \<Rightarrow> int option \<Rightarrow> string SearchRequest" where
  "request q f n = \<lparr>Query = q, Filters = f, TopN = n, Debug = None\<rparr>"

definition searcher_all :: "string ImprovedSearcher" where
  "searcher_all = searcher_demo\<lparr>minSimilarity := Fin 0\<rparr>"

subsection \<open>\<^verbatim>\<open>Search\<close> on a machine\<close>

text \<open>
  Which outcome \<^verbatim>\<open>Search\<close> returns depends on parts of the Go runtime that the repository does
  not contain: the Unicode tables behind \<^verbatim>\<open>strings.TrimSpace\<close> and \<^verbatim>\<open>normalizeText\<close>, the
  rounding of \<^verbatim>\<open>float64\<close> arithmetic (in the scorer, in \<^verbatim>\<open>is.minSimilarity*0.5\<close> and in
  \<^verbatim>\<open>score*100\<close>), \<^verbatim>\<open>sort.Slice\<close> and the verb \<^verbatim>\<open>%.2f\<close>. \<open>SearchOn\<close> is \<^verbatim>\<open>Search\<close> (lines 133-267)
  with these parts as the fields of a machine \<open>M\<close>:
  \<^item> \<open>isBlankOn M q\<close> is the test \<^verbatim>\<open>strings.TrimSpace(q) == ""\<close>;
  \<^item> \<open>normalizeOn M q\<close> is \<^verbatim>\<open>normalizeText(q)\<close>;
  \<^item> \<open>scoreOn M q idx\<close> is the value of \<^verbatim>\<open>is.calculateScore\<close> for the candidate \<open>idx\<close> and the
    features of the query \<open>q\<close> (lines 139-145 and 169-177);
  \<^item> \<open>mulOn M\<close> is the product of two \<^verbatim>\<open>float64\<close> values, \<open>fmt2fOn M\<close> the verb \<^verbatim>\<open>%.2f\<close>;
  \<^item> \<open>sortOn M lt xs\<close> is \<^verbatim>\<open>sort.Slice\<close> with the comparison \<open>lt\<close>.
  The comparisons \<^verbatim>\<open>>=\<close> and \<^verbatim>\<open>>\<close> of \<^verbatim>\<open>float64\<close> values do not round and stay \<open>fge\<close> and \<open>fgt\<close>.
  \<open>exactMachine\<close> is the machine of the sections above (ASCII text, exact arithmetic); on it
  \<open>SearchOn\<close> is \<open>Search\<close>.
\<close>

record 'i machine =
  isBlankOn :: "string \<Rightarrow> bool"
  normalizeOn :: "string \<Rightarrow> string"
  scoreOn :: "string \<Rightarrow> 'i SearchIndex \<Rightarrow> ScoreComponents"
  mulOn :: "f64 \<Rightarrow> f64 \<Rightarrow> f64"
  fmt2fOn :: "f64 \<Rightarrow> string"
  sortOn :: "('i scoredResult \<Rightarrow> 'i scoredResult \<Rightarrow> bool) \<Rightarrow> 'i scoredResult list \<Rightarrow>
               'i scoredResult list"

definition scoreCandidatesOn ::
  "'i machine \<Rightarrow> 'i ImprovedSearcher \<Rightarrow> 'i SearchRequest \<Rightarrow> 'i SearchIndex list \<Rightarrow>
     'i scoredResult list" where
  "scoreCandidatesOn M is req candidates =
     fold (\<lambda>idx results.
             (let c = scoreOn M (Query req) idx
              in if fge (FinalScore c) (mulOn M (minSimilarity is) (Fin 0.5))
                 then results @ [\<lparr>index = idx, score = FinalScore c, components = c\<rparr>]
                 else results))
       candidates []"

definition rankedResponseOn ::
  "'i machine \<Rightarrow> 'i ImprovedSearcher \<Rightarrow> 'i SearchRequest \<Rightarrow> string \<Rightarrow> int \<Rightarrow>
     'i scoredResult list \<Rightarrow> nat \<Rightarrow> 'i SearchResponse" where
  "rankedResponseOn M is req normalizedQuery nCandidates results i =
     (let result = results ! i
      in \<lparr>RItem = Some (Item (index result)),
          Similarity = score result,
          Message = ''Rank '' @ itoa (int i + 1) @ '' with '' @
                    fmt2fOn M (mulOn M (score result) (Fin 100)) @ ''% similarity'',
          Error = [],
          RDebug = debugInfo is req normalizedQuery result nCandidates\<rparr>)"

definition bestResponseOn ::
  "'i machine \<Rightarrow> 'i ImprovedSearcher \<Rightarrow> 'i SearchRequest \<Rightarrow> string \<Rightarrow> int \<Rightarrow>
     'i scoredResult list \<Rightarrow> 'i SearchResponse" where
  "bestResponseOn M is req normalizedQuery nCandidates results =
     (let best = results ! 0
      in \<lparr>RItem = Some (Item (index best)),
          Similarity = score best,
          Message = ''Found item with '' @ fmt2fOn M (mulOn M (score best) (Fin 100)) @ ''% similarity'',
          Error = [],
          RDebug = debugInfo is req normalizedQuery best nCandidates\<rparr>)"

definition SearchOn ::
  "'i machine \<Rightarrow> 'i ImprovedSearcher \<Rightarrow> 'i SearchRequest \<Rightarrow> 'i outcome \<times> 'i ImprovedSearcher" where
  "SearchOn M is req =
     (if isBlankOn M (Query req) then (Single (errorResponse ''Query cannot be empty''), is)
      else
        (let normalizedQuery = normalizeOn M (Query req);
             candidates = filterItems is (Filters req)
         in if length candidates = 0
            then (Single (errorResponse
                   (case Filters req of
                      None \<Rightarrow> ''No items found matching the filter criteria''
                    | Some f \<Rightarrow> ''No items found matching filter: '' @ Description f)),
                  is)
            else
              (let results = scoreCandidatesOn M is req candidates;
                   results = sortOn M (\<lambda>a b. fgt (score a) (score b)) results;
                   topN = clampTopN (TopN req) (int (length results));
                   nCandidates = int (length candidates)
               in if topN = 0
                  then (Single (errorResponse
                         (''No matches found for '' @ [CHR 0x27] @ Query req @ [CHR 0x27])), is)
                  else if topN > 1
                  then (Multi
                         \<lparr>Results = map (rankedResponseOn M is req normalizedQuery
                                           nCandidates results) [0..<nat topN],
                          MQuery = Query req,
                          TotalFound = nCandidates,
                          MFilters = Filters req,
                          MMessage = ''Found '' @ itoa nCandidates @ '' items'' @
                            (case Filters req of
                               None \<Rightarrow> []
                             | Some f \<Rightarrow> '' with filter: '' @ Description f) @
                            '' matching '' @ [CHR 0x27] @ Query req @ [CHR 0x27]\<rparr>,
                        is)
                  else (Single (bestResponseOn M is req normalizedQuery nCandidates results),
                        is))))"

definition exactMachine ::
  "(('i scoredResult \<Rightarrow> 'i scoredResult \<Rightarrow> bool) \<Rightarrow> 'i scoredResult list \<Rightarrow> 'i scoredResult list) \<Rightarrow>
     (f64 \<Rightarrow> string) \<Rightarrow> 'i machine" where
  "exactMachine srt fmt2f =
     \<lparr>isBlankOn = (\<lambda>q. TrimSpace q = []),
      normalizeOn = normalizeText,
      scoreOn = (\<lambda>q idx. queryScore \<lparr>Query = q, Filters = None, TopN = None, Debug = None\<rparr> idx),
      mulOn = fmul,
      fmt2fOn = fmt2f,
      sortOn = srt\<rparr>"

text \<open>
  What \<^verbatim>\<open>sort.Slice\<close> promises: the result is a permutation of the slice, and when the
  comparison is a strict weak order on its elements, no element is less than an earlier one.
\<close>

definition strictWeakOrder :: "('a \<Rightarrow> 'a \<Rightarrow> bool) \<Rightarrow> 'a set \<Rightarrow> bool" where
  "strictWeakOrder lt A =
     ((\<forall>a \<in> A. \<not> lt a a) \<and>
      (\<forall>a \<in> A. \<forall>b \<in> A. \<forall>c \<in> A. lt a b \<longrightarrow> lt b c \<longrightarrow> lt a c) \<and>
      (\<forall>a \<in> A. \<forall>b \<in> A. \<forall>c \<in> A. \<not> lt a b \<longrightarrow> \<not> lt b c \<longrightarrow> \<not> lt a c))"

definition sortSliceContract ::
  "(('a \<Rightarrow> 'a \<Rightarrow> bool) \<Rightarrow> 'a list \<Rightarrow> 'a list) \<Rightarrow> bool" where
  "sortSliceContract srt =
     ((\<forall>lt xs. mset (srt lt xs) = mset xs) \<and>
      (\<forall>lt xs. strictWeakOrder lt (set xs) \<longrightarrow>
         sorted_wrt (\<lambda>a b. \<not> lt b a) (srt lt xs)))"

fun insertBy :: "('a \<Rightarrow> 'a \<Rightarrow> bool) \<Rightarrow> 'a \<Rightarrow> 'a list \<Rightarrow> 'a list" where
  "insertBy lt x [] = [x]"
| "insertBy lt x (y # ys) = (if lt y x then y # insertBy lt x ys else x # y # ys)"

definition insertionSortBy :: "('a \<Rightarrow> 'a \<Rightarrow> bool) \<Rightarrow> 'a list \<Rightarrow> 'a list" where
  "insertionSortBy lt xs = foldr (insertBy lt) xs []"

text \<open>The values \<open>SearchOn\<close> computes on its way, and what an outcome carries.\<close>

definition scoredOn :: "'i machine \<Rightarrow> 'i SearchRequest \<Rightarrow> 'i SearchIndex \<Rightarrow> 'i scoredResult" where
  "scoredOn M req idx =
     \<lparr>index = idx, score = FinalScore (scoreOn M (Query req) idx),
      components = scoreOn M (Query req) idx\<rparr>"

definition survivorsOn :: "'i machine \<Rightarrow> 'i ImprovedSearcher \<Rightarrow> 'i SearchRequest \<Rightarrow> 'i SearchIndex list" where
  \<comment> \<open>the candidates whose final score is at least \<^verbatim>\<open>minSimilarity*0.5\<close>\<close>
  "survivorsOn M is req =
     filter (\<lambda>idx. fge (FinalScore (scoreOn M (Query req) idx))
                     (mulOn M (minSimilarity is) (Fin 0.5)))
       (filterItems is (Filters req))"

definition rankedOn :: "'i machine \<Rightarrow> 'i ImprovedSearcher \<Rightarrow> 'i SearchRequest \<Rightarrow> 'i scoredResult list" where
  \<comment> \<open>the ranked result list: the scored survivors, sorted by \<^verbatim>\<open>score >\<close>\<close>
  "rankedOn M is req =
     sortOn M (\<lambda>a b. fgt (score a) (score b)) (map (scoredOn M req) (survivorsOn M is req))"

definition outcomeMatches :: "'i outcome \<Rightarrow> ('i \<times> f64) list" where
  \<comment> \<open>the items of an outcome with their similarities, in order\<close>
  "outcomeMatches out =
     (let matches = (\<lambda>r. case RItem r of None \<Rightarrow> [] | Some it \<Rightarrow> [(it, Similarity r)])
      in case out of
           Single r \<Rightarrow> matches r
         | Multi m \<Rightarrow> concat (map matches (Results m)))"

definition outcomeErrors :: "'i outcome \<Rightarrow> string list" where
  \<comment> \<open>the error messages of an outcome\<close>
  "outcomeErrors out =
     (case out of
        Single r \<Rightarrow> (if Error r = [] then [] else [Error r])
      | Multi m \<Rightarrow> concat (map (\<lambda>r. if Error r = [] then [] else [Error r]) (Results m)))"

definition machine_demo :: "string machine" where
  "machine_demo = exactMachine insertionSortBy (\<lambda>s. [])"

section \<open>Properties\<close>

subsection \<open>The Levenshtein matrix holds the edit distance\<close>


lemma min_go3: "min_go [a, b, c] = min (min a b) c"
  by (simp add: min_go_def min_def)

lemma fold_upt_inv:
  assumes "a \<le> b" and "P a s"
    and "\<And>k t. a \<le> k \<Longrightarrow> k < b \<Longrightarrow> P k t \<Longrightarrow> P (Suc k) (f k t)"
  shows "P b (fold f [a..<b] s)"
  using assms
proof (induction b rule: dec_induct)
  case base
  then show ?case by simp
next
  case (step n)
  have "P n (fold f [a..<n] s)"
    using step.IH step.prems(1) step.prems(2) by (meson less_Suc_eq)
  then have "P (Suc n) (f n (fold f [a..<n] s))"
    using step.prems(2) step.hyps(1) by simp
  then show ?case
    using step.hyps(1) by simp
qed

lemma editDistance_Nil2: "editDistance xs [] = length xs"
  by (cases xs) simp_all

lemma editDistance_refl: "editDistance xs xs = 0"
  by (induction xs) simp_all

lemma editDistance_sym: "editDistance xs ys = editDistance ys xs"
proof (induction xs ys rule: editDistance.induct)
  case (1 ys)
  then show ?case by (simp add: editDistance_Nil2)
next
  case (2 x xs)
  then show ?case by simp
next
  case (3 x xs y ys)
  then show ?case by (simp add: min.commute min.left_commute eq_commute)
qed

lemma editDistance_del: "editDistance (x # xs) ys \<le> Suc (editDistance xs ys)"
  by (cases ys) (simp_all add: editDistance_Nil2)

lemma editDistance_ins: "editDistance xs (y # ys) \<le> Suc (editDistance xs ys)"
  by (cases xs) simp_all

lemma editDistance_sub: "editDistance (x # xs) (y # ys) \<le> editDistance xs ys + (if x \<noteq> y then 1 else 0)"
  by simp

lemma editDistance_length_le: "length ys \<le> length xs + editDistance xs ys"
proof (induction xs ys rule: editDistance.induct)
  case (3 x xs y ys)
  then show ?case by (simp add: min_def)
qed simp_all

lemma editDistance_le_sum: "editDistance xs ys \<le> length xs + length ys"
proof (induction xs ys rule: editDistance.induct)
  case (3 x xs y ys)
  then show ?case by (simp add: min_def)
qed simp_all


lemma editDistance_triangle:
  "editDistance xs zs \<le> editDistance xs ys + editDistance ys zs"
proof (induction "length xs + length ys + length zs" arbitrary: xs ys zs rule: less_induct)
  case less
  show ?case
  proof (cases xs)
    case Nil
    then show ?thesis
      using editDistance_length_le [of zs ys] by simp
  next
    case xs: (Cons x xs')
    show ?thesis
    proof (cases zs)
      case Nil
      then show ?thesis
        using editDistance_length_le [of xs ys] editDistance_sym [of ys xs]
        by (simp add: editDistance_Nil2)
    next
      case zs: (Cons z zs')
      show ?thesis
      proof (cases ys)
        case Nil
        then show ?thesis
          using editDistance_le_sum [of xs zs] by (simp add: editDistance_Nil2)
      next
        case ys: (Cons y ys')
        define cxy :: nat where "cxy = (if x \<noteq> y then 1 else 0)"
        define cyz :: nat where "cyz = (if y \<noteq> z then 1 else 0)"
        define cxz :: nat where "cxz = (if x \<noteq> z then 1 else 0)"
        have C: "cxz \<le> cxy + cyz"
          by (auto simp: cxy_def cyz_def cxz_def)
        have I1: "editDistance xs' zs \<le> editDistance xs' ys + editDistance ys zs"
          by (rule less) (simp add: xs)
        have I2: "editDistance xs zs' \<le> editDistance xs ys + editDistance ys zs'"
          by (rule less) (simp add: zs)
        have I3: "editDistance xs zs \<le> editDistance xs ys' + editDistance ys' zs"
          by (rule less) (simp add: ys)
        have I4: "editDistance xs zs' \<le> editDistance xs ys' + editDistance ys' zs'"
          by (rule less) (simp add: ys zs)
        have I5: "editDistance xs' zs \<le> editDistance xs' ys' + editDistance ys' zs"
          by (rule less) (simp add: xs ys)
        have I6: "editDistance xs' zs' \<le> editDistance xs' ys' + editDistance ys' zs'"
          by (rule less) (simp add: xs ys zs)
        have U1: "editDistance xs zs \<le> Suc (editDistance xs' zs)"
          unfolding xs by (rule editDistance_del)
        have U2: "editDistance xs zs \<le> Suc (editDistance xs zs')"
          unfolding zs by (rule editDistance_ins)
        have U3: "editDistance xs zs \<le> editDistance xs' zs' + cxz"
          unfolding xs zs cxz_def by (rule editDistance_sub)
        have E1: "editDistance xs ys =
            min (min (editDistance xs' ys + 1) (editDistance xs ys' + 1)) (editDistance xs' ys' + cxy)"
          unfolding xs ys cxy_def by simp
        have E2: "editDistance ys zs =
            min (min (editDistance ys' zs + 1) (editDistance ys zs' + 1)) (editDistance ys' zs' + cyz)"
          unfolding ys zs cyz_def by simp
        show ?thesis
          using C I1 I2 I3 I4 I5 I6 U1 U2 U3 E1 E2 by linarith
      qed
    qed
  qed
qed


lemma cellDistance_row0: "j \<le> length s2 \<Longrightarrow> cellDistance s1 s2 0 j = int j"
  by (simp add: cellDistance_def)

lemma cellDistance_col0: "i \<le> length s1 \<Longrightarrow> cellDistance s1 s2 i 0 = int i"
  by (simp add: cellDistance_def editDistance_Nil2)

lemma rev_take_Suc: "i < length s \<Longrightarrow> rev (take (Suc i) s) = s ! i # rev (take i s)"
  by (simp add: take_Suc_conv_app_nth)

lemma cellDistance_step:
  assumes "0 < i" "i \<le> length s1" "0 < j" "j \<le> length s2"
  shows "cellDistance s1 s2 i j =
     min (min (cellDistance s1 s2 (i - 1) j + 1) (cellDistance s1 s2 i (j - 1) + 1))
         (cellDistance s1 s2 (i - 1) (j - 1) + (if s1 ! (i - 1) \<noteq> s2 ! (j - 1) then 1 else 0))"
proof -
  obtain i0 where i: "i = Suc i0" using assms(1) by (cases i) auto
  obtain j0 where j: "j = Suc j0" using assms(3) by (cases j) auto
  have ri: "rev (take (Suc i0) s1) = s1 ! i0 # rev (take i0 s1)"
    using assms(2) i by (simp add: rev_take_Suc)
  have rj: "rev (take (Suc j0) s2) = s2 ! j0 # rev (take j0 s2)"
    using assms(4) j by (simp add: rev_take_Suc)
  show ?thesis
    unfolding cellDistance_def i j ri rj
    by (simp add: min_def)
qed

lemma nth_nth_update2:
  "i < length m \<Longrightarrow> j < length (m ! i) \<Longrightarrow>
     (m[i := (m ! i)[j := v]]) ! i' ! j' = (if i' = i \<and> j' = j then v else m ! i' ! j')"
  by (cases "i' = i") (auto simp: nth_list_update)

lemma length_nth_update2:
  "length ((m[i := (m ! i)[j := v]]) ! i') = length (m ! i')"
  by (cases "i < length m"; cases "i' = i") (auto simp: nth_list_update list_update_beyond)

lemma matrixDims_update2:
  "matrixDims len1 len2 m \<Longrightarrow> matrixDims len1 len2 (m[i := (m ! i)[j := v]])"
  unfolding matrixDims_def by (simp add: length_nth_update2)

lemma filledUpTo_next_row:
  assumes "filledUpTo s1 s2 m i (length s2 + 1)"
  shows "filledUpTo s1 s2 m (Suc i) 1"
proof -
  have cells: "m ! i' ! j' = cellDistance s1 s2 i' j'"
    if "i' \<le> length s1" "j' \<le> length s2" "i' = 0 \<or> j' = 0 \<or> i' < i \<or> (i' = i \<and> j' < length s2 + 1)"
    for i' j'
    using assms that unfolding filledUpTo_def by blast
  have "m ! i' ! j' = cellDistance s1 s2 i' j'"
    if "i' \<le> length s1" "j' \<le> length s2" "i' = 0 \<or> j' = 0 \<or> i' < Suc i \<or> (i' = Suc i \<and> j' < 1)"
    for i' j'
    using that by (intro cells) auto
  then show ?thesis
    using assms unfolding filledUpTo_def by blast
qed

lemma initMatrix_filled:
  "filledUpTo s1 s2 (initMatrix (length s1) (length s2)) 1 1"
proof -
  define len1 where "len1 = length s1"
  define len2 where "len2 = length s2"
  define m0 where "m0 = map (\<lambda>i. (replicate (len2 + 1) (0::int))[0 := int i]) [0..<len1 + 1]"
  define Q where "Q = (\<lambda>(j::nat) (m::int list list). matrixDims len1 len2 m \<and>
       (\<forall>i \<le> len1. m ! i ! 0 = int i) \<and> (\<forall>j' < j. j' \<le> len2 \<longrightarrow> m ! 0 ! j' = int j'))"
  have Q0: "Q 1 m0"
    by (auto simp: Q_def m0_def matrixDims_def nth_append less_Suc_eq_le simp del: upt_Suc)
  have step: "Q (Suc k) (t[0 := (t ! 0)[k := int k]])" if "1 \<le> k" "k < len2 + 1" "Q k t" for k t
  proof -
    have d: "matrixDims len1 len2 t" using that(3) by (simp add: Q_def)
    then have l0: "0 < length t" and lk: "k < length (t ! 0)"
      using that(2) by (auto simp: matrixDims_def)
    show ?thesis
      unfolding Q_def using that d matrixDims_update2 [OF d, of 0 k "int k"]
      by (auto simp: Q_def nth_nth_update2 [OF l0 lk] less_Suc_eq)
  qed
  have "Q (len2 + 1) (fold (\<lambda>j m. m[0 := (m ! 0)[j := int j]]) [1..<len2 + 1] m0)"
    by (rule fold_upt_inv [where P = Q]) (use Q0 step in auto)
  then have "Q (len2 + 1) (initMatrix len1 len2)"
    by (simp add: initMatrix_def m0_def Let_def)
  then show ?thesis
    unfolding filledUpTo_def Q_def len1_def len2_def
    by (auto simp: cellDistance_row0 cellDistance_col0)
qed

lemma fillCell_filled:
  assumes "filledUpTo s1 s2 m i j" "1 \<le> i" "i \<le> length s1" "1 \<le> j" "j \<le> length s2"
  shows "filledUpTo s1 s2 (fillCell s1 s2 i j m) i (Suc j)"
proof -
  have dims: "matrixDims (length s1) (length s2) m"
    and cells: "\<And>i' j'. i' \<le> length s1 \<Longrightarrow> j' \<le> length s2 \<Longrightarrow>
         (i' = 0 \<or> j' = 0 \<or> i' < i \<or> (i' = i \<and> j' < j)) \<Longrightarrow>
         m ! i' ! j' = cellDistance s1 s2 i' j'"
    using assms(1) by (auto simp: filledUpTo_def)
  have a: "m ! (i - 1) ! j = cellDistance s1 s2 (i - 1) j"
    using assms by (intro cells) auto
  have b: "m ! i ! (j - 1) = cellDistance s1 s2 i (j - 1)"
    using assms by (intro cells) auto
  have c: "m ! (i - 1) ! (j - 1) = cellDistance s1 s2 (i - 1) (j - 1)"
    using assms by (intro cells) auto
  define v where "v = cellDistance s1 s2 i j"
  have fc: "fillCell s1 s2 i j m = m[i := (m ! i)[j := v]]"
    unfolding fillCell_def Let_def a b c min_go3 v_def
    using cellDistance_step [of i s1 j s2] assms by simp
  have li: "i < length m" and lj: "j < length (m ! i)"
    using dims assms by (auto simp: matrixDims_def)
  have dims': "matrixDims (length s1) (length s2) (m[i := (m ! i)[j := v]])"
    using dims by (rule matrixDims_update2)
  have cells': "(m[i := (m ! i)[j := v]]) ! i' ! j' = cellDistance s1 s2 i' j'"
    if "i' \<le> length s1" "j' \<le> length s2" "i' = 0 \<or> j' = 0 \<or> i' < i \<or> (i' = i \<and> j' < Suc j)"
    for i' j'
  proof (cases "i' = i \<and> j' = j")
    case True
    then show ?thesis by (simp add: nth_nth_update2 [OF li lj] v_def)
  next
    case False
    then have "(m[i := (m ! i)[j := v]]) ! i' ! j' = m ! i' ! j'"
      by (auto simp: nth_nth_update2 [OF li lj])
    moreover have "m ! i' ! j' = cellDistance s1 s2 i' j'"
      using that False by (intro cells) auto
    ultimately show ?thesis by simp
  qed
  show ?thesis
    unfolding fc filledUpTo_def using dims' cells' by blast
qed

lemma fillRow_filled:
  assumes "filledUpTo s1 s2 m i 1" "1 \<le> i" "i \<le> length s1"
  shows "filledUpTo s1 s2 (fold (\<lambda>j m. fillCell s1 s2 i j m) [1..<length s2 + 1] m) (Suc i) 1"
proof -
  have "filledUpTo s1 s2 (fold (\<lambda>j m. fillCell s1 s2 i j m) [1..<length s2 + 1] m) i (length s2 + 1)"
    by (rule fold_upt_inv [where P = "\<lambda>j m. filledUpTo s1 s2 m i j"])
       (use assms fillCell_filled in auto)
  then show ?thesis
    by (rule filledUpTo_next_row)
qed

lemma fillMatrix_filled:
  "filledUpTo s1 s2 (fillMatrix s1 s2 (initMatrix (length s1) (length s2))) (length s1 + 1) 1"
  unfolding fillMatrix_def
  by (rule fold_upt_inv [where P = "\<lambda>i m. filledUpTo s1 s2 m i 1"])
     (use initMatrix_filled fillRow_filled in auto)

lemma calculateLevenshteinDistance_editDistance:
  "calculateLevenshteinDistance s1 s2 = int (editDistance (rev s1) (rev s2))"
proof -
  have "fillMatrix s1 s2 (initMatrix (length s1) (length s2)) ! length s1 ! length s2
          = cellDistance s1 s2 (length s1) (length s2)"
    using fillMatrix_filled [of s1 s2] unfolding filledUpTo_def by auto
  then show ?thesis
    by (auto simp: calculateLevenshteinDistance_def Let_def cellDistance_def
        editDistance_refl editDistance_Nil2)
qed

text \<open>
  C8. The Levenshtein-distance calculator is symmetric, returns 0 on equal inputs, and
  satisfies the triangle inequality, for all strings.
\<close>

theorem levenshtein_metric:
  "calculateLevenshteinDistance a b = calculateLevenshteinDistance b a \<and>
   calculateLevenshteinDistance a a = 0 \<and>
   calculateLevenshteinDistance a c
     \<le> calculateLevenshteinDistance a b + calculateLevenshteinDistance b c"
proof -
  have "editDistance (rev a) (rev c)
          \<le> editDistance (rev a) (rev b) + editDistance (rev b) (rev c)"
    by (rule editDistance_triangle)
  then show ?thesis
    unfolding calculateLevenshteinDistance_editDistance
    using editDistance_sym [of "rev a" "rev b"] by (simp add: editDistance_refl)
qed

theorem levenshtein_metric_witness:
  "calculateLevenshteinDistance ''kitten'' ''sitting'' = 3 \<and>
   calculateLevenshteinDistance ''sitting'' ''kitten'' = 3 \<and>
   calculateLevenshteinDistance ''kitten'' ''kitten'' = 0 \<and>
   calculateLevenshteinDistance ''kitten'' ''mitten''
     \<le> 3 + calculateLevenshteinDistance ''sitting'' ''mitten''"
proof -
  have "calculateLevenshteinDistance ''kitten'' ''sitting'' = 3"
    by code_simp
  then show ?thesis
    using levenshtein_metric [where a = "''kitten''" and b = "''sitting''" and c = "''mitten''"]
    by simp
qed

subsection \<open>Jaccard similarity\<close>

lemma fcard_eq_0_iff: "fcard s = 0 \<longleftrightarrow> s = {||}"
  by (metis fcard_fempty fcard_seteq le_zero_eq fempty_fsubsetI)

lemma ffilter_self: "ffilter (\<lambda>item. item |\<in>| s) s = s"
  by auto

lemma ffilter_disjoint: "s1 |\<inter>| s2 = {||} \<Longrightarrow> ffilter (\<lambda>item. item |\<in>| s2) s1 = {||}"
  by auto

text \<open>
  C7. The Jaccard similarity of a string set with itself is 1.0; that of two disjoint string
  sets is 0.0, the two empty sets excepted, whose similarity is defined as 1.0; exactly one
  empty set gives 0.0.
\<close>

theorem jaccard_self_and_disjoint:
  "calculateJaccardSimilarity s s = Fin 1 \<and>
   (s1 |\<inter>| s2 = {||} \<longrightarrow> \<not> (s1 = {||} \<and> s2 = {||}) \<longrightarrow>
      calculateJaccardSimilarity s1 s2 = Fin 0) \<and>
   calculateJaccardSimilarity {||} {||} = Fin 1 \<and>
   (s \<noteq> {||} \<longrightarrow>
      calculateJaccardSimilarity s {||} = Fin 0 \<and> calculateJaccardSimilarity {||} s = Fin 0)"
proof (intro conjI impI)
  show "calculateJaccardSimilarity s s = Fin 1"
    by (simp add: calculateJaccardSimilarity_def fcard_eq_0_iff ffilter_self float64_def)
next
  assume d: "s1 |\<inter>| s2 = {||}" and ne: "\<not> (s1 = {||} \<and> s2 = {||})"
  show "calculateJaccardSimilarity s1 s2 = Fin 0"
    using ne
    by (simp add: calculateJaccardSimilarity_def fcard_eq_0_iff ffilter_disjoint [OF d]
        float64_def Let_def)
next
  show "calculateJaccardSimilarity {||} {||} = Fin 1"
    by (simp add: calculateJaccardSimilarity_def)
next
  assume "s \<noteq> {||}"
  then show "calculateJaccardSimilarity s {||} = Fin 0"
    by (simp add: calculateJaccardSimilarity_def fcard_eq_0_iff)
next
  assume "s \<noteq> {||}"
  then show "calculateJaccardSimilarity {||} s = Fin 0"
    by (simp add: calculateJaccardSimilarity_def fcard_eq_0_iff)
qed

theorem jaccard_self_and_disjoint_witness:
  "calculateJaccardSimilarity {|''#a'', ''ab'', ''b#''|} {|''#a'', ''ab'', ''b#''|} = Fin 1 \<and>
   calculateJaccardSimilarity {|''#a'', ''a#''|} {|''#b'', ''b#''|} = Fin 0 \<and>
   calculateJaccardSimilarity {|''#a'', ''a#''|} {||} = Fin 0 \<and>
   calculateJaccardSimilarity {||} {|''#a'', ''a#''|} = Fin 0 \<and>
   calculateJaccardSimilarity {|''#a'', ''ab'', ''b#''|} {|''#a'', ''ac'', ''c#''|} = Fin (1 / 5)"
proof -
  have d: "{|''#a'', ''a#''|} |\<inter>| {|''#b'', ''b#''|} = ({||} :: string fset)"
    by auto
  have ne: "{|''#a'', ''a#''|} \<noteq> ({||} :: string fset)"
    by simp
  have e: "calculateJaccardSimilarity {|''#a'', ''ab'', ''b#''|} {|''#a'', ''ac'', ''c#''|} = Fin (1 / 5)"
    by code_simp
  show ?thesis
    using jaccard_self_and_disjoint [where s = "{|''#a'', ''ab'', ''b#''|}"
        and ?s1.0 = "{|''#a'', ''a#''|}" and ?s2.0 = "{|''#b'', ''b#''|}"]
      jaccard_self_and_disjoint [where s = "{|''#a'', ''a#''|}" and ?s1.0 = "{||}" and ?s2.0 = "{||}"]
      d ne e
    by simp
qed

subsection \<open>N-gram generation\<close>

lemma Repeat_hash: "0 \<le> k \<Longrightarrow> Repeat ''#'' k = Inr (replicate (nat k) CHR ''#'')"
proof -
  have "concat (replicate m ''#'') = replicate m CHR ''#''" for m
    by (induction m) simp_all
  then show "0 \<le> k \<Longrightarrow> Repeat ''#'' k = Inr (replicate (nat k) CHR ''#'')"
    by (simp add: Repeat_def)
qed

lemma fold_finsert:
  "fold (\<lambda>i ngrams. finsert (f i) ngrams) xs A = fset_of_list (map f xs) |\<union>| A"
  by (induction xs arbitrary: A) auto

lemma sublists_of_length:
  "g \<in> set (map (\<lambda>i. take n (drop i padded)) [0..<length padded - n + 1]) \<longleftrightarrow>
     (length g = n \<and> (\<exists>pre suf. padded = pre @ g @ suf))" if "n \<le> length padded"
proof
  assume "g \<in> set (map (\<lambda>i. take n (drop i padded)) [0..<length padded - n + 1])"
  then obtain i where i: "i \<le> length padded - n" and g: "g = take n (drop i padded)"
    by (auto simp: less_Suc_eq_le simp del: upt_Suc)
  have "length g = n"
    using i that by (simp add: g)
  moreover have "padded = take i padded @ g @ drop n (drop i padded)"
    unfolding g by (simp only: append_take_drop_id)
  ultimately show "length g = n \<and> (\<exists>pre suf. padded = pre @ g @ suf)"
    by blast
next
  assume "length g = n \<and> (\<exists>pre suf. padded = pre @ g @ suf)"
  then obtain pre suf where l: "length g = n" and p: "padded = pre @ g @ suf"
    by blast
  have "take n (drop (length pre) padded) = g"
    by (simp add: p l)
  moreover have "length pre \<le> length padded - n"
    by (simp add: p l)
  ultimately show "g \<in> set (map (\<lambda>i. take n (drop i padded)) [0..<length padded - n + 1])"
    by (auto simp: image_iff simp del: upt_Suc intro!: bexI [where x = "length pre"])
qed

lemma createCharNgrams_long:
  assumes "1 \<le> n" "n \<le> int (length text)"
  shows "createCharNgrams text n =
     Inr (fset_of_list (map (\<lambda>i. take (nat n) (drop i (paddedText text n)))
            [0..<length (paddedText text n) - nat n + 1]))"
proof -
  have "nat (int (length (paddedText text n)) - n + 1) = length (paddedText text n) - nat n + 1"
    using assms by (simp add: paddedText_def nat_add_distrib nat_diff_distrib)
  then show ?thesis
    using assms
    by (simp add: createCharNgrams_def Repeat_hash fold_finsert Let_def paddedText_def)
qed

lemma createCharNgrams_char:
  assumes "1 \<le> n" "n \<le> int (length text)"
  shows "\<exists>S. createCharNgrams text n = Inr S \<and> S \<noteq> {||} \<and>
           (\<forall>g. g |\<in>| S \<longleftrightarrow>
              length g = nat n \<and> (\<exists>pre suf. paddedText text n = pre @ g @ suf))"
proof -
  have le: "nat n \<le> length (paddedText text n)"
    using assms by (simp add: paddedText_def)
  define S where "S = fset_of_list (map (\<lambda>i. take (nat n) (drop i (paddedText text n)))
            [0..<length (paddedText text n) - nat n + 1])"
  have "createCharNgrams text n = Inr S"
    unfolding S_def by (rule createCharNgrams_long [OF assms])
  moreover have mem: "g |\<in>| S \<longleftrightarrow>
       length g = nat n \<and> (\<exists>pre suf. paddedText text n = pre @ g @ suf)" for g
    unfolding S_def fset_of_list.rep_eq using sublists_of_length [OF le] by simp
  moreover have "S \<noteq> {||}"
  proof -
    have "paddedText text n = [] @ take (nat n) (paddedText text n) @ drop (nat n) (paddedText text n)"
      by simp
    then have "take (nat n) (paddedText text n) |\<in>| S"
      unfolding mem using le by (metis length_take min.absorb2)
    then show ?thesis by auto
  qed
  ultimately show ?thesis by blast
qed

text \<open>
  C6. For every text and every n in {2, 3}: a text shorter than n gives the singleton set
  of the text itself; otherwise the result is the set of every contiguous substring of
  length n of the padded text; in every case the result is a non-empty set (and no panic).
\<close>

theorem createCharNgrams_spec:
  assumes "n = 2 \<or> n = 3"
  shows "(int (length text) < n \<longrightarrow> createCharNgrams text n = Inr {|text|}) \<and>
         (n \<le> int (length text) \<longrightarrow>
            (\<exists>S. createCharNgrams text n = Inr S \<and>
                 (\<forall>g. g |\<in>| S \<longleftrightarrow>
                    length g = nat n \<and> (\<exists>pre suf. paddedText text n = pre @ g @ suf)))) \<and>
         (\<exists>S. createCharNgrams text n = Inr S \<and> S \<noteq> {||})"
proof -
  have n1: "1 \<le> n" using assms by auto
  show ?thesis
  proof (cases "int (length text) < n")
    case True
    then show ?thesis by (simp add: createCharNgrams_def)
  next
    case False
    then have "n \<le> int (length text)" by simp
    from createCharNgrams_char [OF n1 this] False show ?thesis by auto
  qed
qed

theorem createCharNgrams_spec_witness:
  "((2::int) = 2 \<or> (2::int) = 3) \<and>
   createCharNgrams ''go'' 2 = Inr {|''#g'', ''go'', ''o#''|} \<and>
   (\<exists>S. createCharNgrams ''go'' 2 = Inr S \<and> S \<noteq> {||} \<and>
        (\<forall>g. g |\<in>| S \<longleftrightarrow> length g = 2 \<and> (\<exists>pre suf. ''#go#'' = pre @ g @ suf))) \<and>
   createCharNgrams ''a'' 3 = Inr {|''a''|}"
proof -
  have h2: "(2::int) = 2 \<or> (2::int) = 3" by simp
  have h3: "(3::int) = 2 \<or> (3::int) = 3" by simp
  have e: "createCharNgrams ''go'' 2 = Inr {|''#g'', ''go'', ''o#''|}"
    by code_simp
  have p: "paddedText ''go'' 2 = ''#go#''"
    by (simp add: paddedText_def)
  show ?thesis
    using createCharNgrams_spec [OF h2, of "''go''"] createCharNgrams_spec [OF h3, of "''a''"] e p
    by auto
qed

subsection \<open>The scorer\<close>

lemma foldl_weighStep:
  "foldl weighStep acc ps =
     (foldl fadd (fst acc) (map (\<lambda>p. fmul (fst p) (Fin (snd p))) (filter (\<lambda>p. fgt (fst p) (Fin 0)) ps)),
      foldl fadd (snd acc) (map (\<lambda>p. Fin (snd p)) (filter (\<lambda>p. fgt (fst p) (Fin 0)) ps)))"
  by (induction ps arbitrary: acc) (simp_all add: weighStep_def)

lemma weights_simps:
  "weights ''exact'' = Fin 1.0" "weights ''prefix'' = Fin 0.9" "weights ''word'' = Fin 0.85"
  "weights ''substring'' = Fin 0.75" "weights ''trigram'' = Fin 0.6" "weights ''bigram'' = Fin 0.4"
  "weights ''acronym'' = Fin 0.7" "weights ''levenshtein'' = Fin 0.5"
  by (simp_all add: weights_def)

lemma addWeighted_weighStep:
  "weights key = Fin w \<Longrightarrow> addWeighted v key acc = weighStep acc (v, w)"
  by (simp add: addWeighted_def weighStep_def)

lemma weightedTotals_foldl:
  "weightedTotals c = foldl weighStep (Fin 0, Fin 0) (spec_components c)"
  unfolding weightedTotals_def Let_def spec_components_def
  by (simp add: addWeighted_weighStep [OF weights_simps(1)] addWeighted_weighStep [OF weights_simps(2)]
      addWeighted_weighStep [OF weights_simps(3)] addWeighted_weighStep [OF weights_simps(4)]
      addWeighted_weighStep [OF weights_simps(5)] addWeighted_weighStep [OF weights_simps(6)]
      addWeighted_weighStep [OF weights_simps(7)] addWeighted_weighStep [OF weights_simps(8)])

lemma weightedTotals_spec:
  "weightedTotals c = (spec_weightedSum c, spec_totalWeight c)"
  by (simp add: weightedTotals_foldl foldl_weighStep spec_weightedSum_def spec_totalWeight_def
      spec_positive_def)

lemma foldl_fadd_Fin:
  "foldl fadd (Fin a) (map (\<lambda>p. Fin (snd p)) ps) = Fin (a + sum_list (map snd ps))"
  by (induction ps arbitrary: a) (simp_all add: add.assoc)

lemma spec_weights_positive:
  assumes "p \<in> set (spec_positive c)"
  shows "0 < snd p"
proof -
  have "p \<in> set (spec_components c)"
    using assms by (simp only: spec_positive_def set_filter mem_Collect_eq)
  then show ?thesis
    by (auto simp: spec_components_def)
qed

lemma sum_list_pos: "(\<And>p. p \<in> set ps \<Longrightarrow> 0 < snd p) \<Longrightarrow> ps \<noteq> [] \<Longrightarrow> 0 < sum_list (map snd ps)"
  for ps :: "(f64 \<times> real) list"
proof (induction ps)
  case Nil
  then show ?case by simp
next
  case (Cons p ps)
  have "0 \<le> sum_list (map snd ps)"
    using Cons.prems(1) by (intro sum_list_nonneg) (auto intro: less_imp_le)
  moreover have "0 < snd p" using Cons.prems(1) by simp
  ultimately show ?case by simp
qed

lemma spec_totalWeight_Fin:
  "spec_totalWeight c = Fin (sum_list (map snd (spec_positive c)))"
  by (simp add: spec_totalWeight_def foldl_fadd_Fin)

lemma totalWeight_positive_iff:
  "fgt (spec_totalWeight c) (Fin 0) \<longleftrightarrow> spec_positive c \<noteq> []"
proof (cases "spec_positive c = []")
  case True
  then show ?thesis by (simp add: spec_totalWeight_Fin)
next
  case False
  then have "0 < sum_list (map snd (spec_positive c))"
    by (intro sum_list_pos spec_weights_positive)
  then show ?thesis using False by (simp add: spec_totalWeight_Fin)
qed

lemma calculateScore_final_components:
  "ExactMatch (calculateScore_final q c) = ExactMatch c"
  "PrefixMatch (calculateScore_final q c) = PrefixMatch c"
  "WordMatch (calculateScore_final q c) = WordMatch c"
  "SubstringMatch (calculateScore_final q c) = SubstringMatch c"
  "TrigramSimilarity (calculateScore_final q c) = TrigramSimilarity c"
  "BigramSimilarity (calculateScore_final q c) = BigramSimilarity c"
  "AcronymMatch (calculateScore_final q c) = AcronymMatch c"
  "LevenshteinSim (calculateScore_final q c) = LevenshteinSim c"
  by (simp_all add: calculateScore_final_def Let_def)

lemma spec_components_final: "spec_components (calculateScore_final q c) = spec_components c"
  by (simp add: spec_components_def calculateScore_final_components)

lemma spec_final:
  "spec_positive (calculateScore_final q c) = spec_positive c"
  "spec_finalScore (calculateScore_final q c) = spec_finalScore c"
  by (simp_all add: spec_positive_def spec_finalScore_def spec_weightedSum_def
      spec_totalWeight_def spec_components_final)

lemma FinalScore_final:
  "FinalScore (calculateScore_final q c) =
     (if spec_positive c = [] then FinalScore c
      else if length q \<le> 10 \<and> fgt (ExactMatch c) (Fin 0) then
        (if fge (WordMatch c) (Fin 0.8) \<and> fgt (SubstringMatch c) (Fin 0) then Fin 1 else Fin 1)
      else if fge (WordMatch c) (Fin 0.8) \<and> fgt (SubstringMatch c) (Fin 0)
      then fmin (fmul (spec_finalScore c) (Fin 1.1)) (Fin 1)
      else spec_finalScore c)"
  by (auto simp: calculateScore_final_def Let_def weightedTotals_spec totalWeight_positive_iff
      spec_finalScore_def)

lemma FinalScore_signals:
  "FinalScore (calculateScore_signals idx q qw qws qt qb qa) = Fin 0"
  by (simp add: calculateScore_signals_def Let_def zeroComponents_def)


lemma createCharNgrams_total: "1 \<le> n \<Longrightarrow> \<exists>S. createCharNgrams t n = Inr S"
  using createCharNgrams_char [of n t] by (cases "int (length t) < n") (auto simp: createCharNgrams_def)

lemma createCharNgrams_23:
  "createCharNgrams t 3 = Inr (ngramsOf t 3)" "createCharNgrams t 2 = Inr (ngramsOf t 2)"
  using createCharNgrams_total [of 3 t] createCharNgrams_total [of 2 t]
  by (auto simp: ngramsOf_def)

lemma indexItem_Inr:
  "indexItem g item =
     Inr \<lparr>Item = item,
          NormalizedText = normalizeText (g item),
          LowercaseText = ToLower (normalizeText (g item)),
          Words = extractWords (ToLower (normalizeText (g item))),
          WordSet = createWordSet (extractWords (ToLower (normalizeText (g item)))),
          Trigrams = ngramsOf (ToLower (normalizeText (g item))) 3,
          Bigrams = ngramsOf (ToLower (normalizeText (g item))) 2,
          FirstLetters = extractFirstLetters (extractWords (ToLower (normalizeText (g item)))),
          Acronym = extractAcronym (g item),
          TextLength = int (length (ToLower (normalizeText (g item))))\<rparr>"
  by (simp add: indexItem_def Let_def createCharNgrams_23)

lemma ExactMatch_signals:
  "ExactMatch (calculateScore_signals idx q qw qws qt qb qa) =
     (if LowercaseText idx = q then Fin 1 else Fin 0)"
  by (simp add: calculateScore_signals_def Let_def zeroComponents_def)

lemma spec_positive_exact:
  "fgt (ExactMatch c) (Fin 0) \<Longrightarrow> spec_positive c \<noteq> []"
  by (simp add: spec_positive_def spec_components_def)

lemma exact_short_score:
  assumes "LowercaseText idx = q" "length q \<le> 10"
  shows "FinalScore (calculateScore idx q qw qws qt qb qa) = Fin 1"
proof -
  define c where "c = calculateScore_signals idx q qw qws qt qb qa"
  have e: "ExactMatch c = Fin 1"
    using assms(1) by (simp add: c_def ExactMatch_signals)
  then have "spec_positive c \<noteq> []"
    by (intro spec_positive_exact) simp
  then show ?thesis
    unfolding calculateScore_def c_def [symmetric]
    using e assms(2) by (simp add: FinalScore_final)
qed

text \<open>
  C3. Every item is indexed without a panic, and when its search text, normalized and
  lowercased, has length at most 10, scoring the item against a query equal to its own text
  gives the final score 1.0 exactly, whatever the other query features are.
\<close>

theorem own_text_scores_one:
  "\<exists>idx. indexItem GetSearchText item = Inr idx \<and>
         LowercaseText idx = ToLower (normalizeText (GetSearchText item)) \<and>
         (length (LowercaseText idx) \<le> 10 \<longrightarrow>
            FinalScore (calculateScore idx (ToLower (normalizeText (GetSearchText item)))
                          queryWords queryWordSet queryTrigrams queryBigrams queryAcronym) = Fin 1)"
  by (simp add: indexItem_Inr exact_short_score)

lemma finiteOrPInf_fmul: "fgt v (Fin 0) \<Longrightarrow> 0 < w \<Longrightarrow> finiteOrPInf (fmul v (Fin w))"
  by (cases v) (simp_all add: finiteOrPInf_def infSign_def)

lemma finiteOrPInf_fadd: "finiteOrPInf a \<Longrightarrow> finiteOrPInf b \<Longrightarrow> finiteOrPInf (fadd a b)"
  by (cases a; cases b) (simp_all add: finiteOrPInf_def)

lemma finiteOrPInf_foldl:
  "finiteOrPInf acc \<Longrightarrow> (\<And>x. x \<in> set xs \<Longrightarrow> finiteOrPInf x) \<Longrightarrow> finiteOrPInf (foldl fadd acc xs)"
  by (induction xs arbitrary: acc) (simp_all add: finiteOrPInf_fadd)

lemma finiteOrPInf_weightedSum: "finiteOrPInf (spec_weightedSum c)"
  unfolding spec_weightedSum_def
proof (rule finiteOrPInf_foldl)
  show "finiteOrPInf (Fin 0)" by (simp add: finiteOrPInf_def)
next
  fix x assume "x \<in> set (map (\<lambda>p. fmul (fst p) (Fin (snd p))) (spec_positive c))"
  then obtain p where p: "p \<in> set (spec_positive c)" and x: "x = fmul (fst p) (Fin (snd p))"
    by auto
  have "fgt (fst p) (Fin 0)"
    using p by (simp only: spec_positive_def set_filter mem_Collect_eq)
  then show "finiteOrPInf x"
    unfolding x using spec_weights_positive [OF p] by (rule finiteOrPInf_fmul)
qed

lemma finiteOrPInf_finalScore: "finiteOrPInf (spec_finalScore c)"
proof (cases "spec_positive c = []")
  case True
  then show ?thesis by (simp add: spec_finalScore_def finiteOrPInf_def)
next
  case False
  then have "0 < sum_list (map snd (spec_positive c))"
    by (intro sum_list_pos spec_weights_positive)
  then show ?thesis
    using False finiteOrPInf_weightedSum [of c]
    by (cases "spec_weightedSum c")
       (simp_all add: spec_finalScore_def spec_totalWeight_Fin finiteOrPInf_def)
qed

lemma finiteOrPInf_bonus: "finiteOrPInf x \<Longrightarrow> finiteOrPInf (fmin (fmul x (Fin 1.1)) (Fin 1))"
  by (cases x) (simp_all add: finiteOrPInf_def infSign_def)

lemma finiteOrPInf_FinalScore:
  "finiteOrPInf (FinalScore (calculateScore idx q qw qws qt qb qa))"
  unfolding calculateScore_def
  by (simp add: FinalScore_final FinalScore_signals finiteOrPInf_bonus finiteOrPInf_finalScore)
     (simp add: finiteOrPInf_def)

lemma FinalScore_not_NaN: "FinalScore (calculateScore idx q qw qws qt qb qa) \<noteq> NaN"
  using finiteOrPInf_FinalScore [of idx q qw qws qt qb qa] by (auto simp: finiteOrPInf_def)

text \<open>
  C1, as amended. The final score is 0.0 when no component is strictly positive. Otherwise
  it is 1.0 when the query has at most 10 bytes and the exact match fired; else, when the
  word match is at least 0.8 and the substring match is positive, it is the weighted
  quotient of the specification times 1.1, capped at 1.0; else it is that quotient.
\<close>

theorem calculateScore_final_score:
  "FinalScore (calculateScore idx q qw qws qt qb qa) =
     (if spec_positive (calculateScore idx q qw qws qt qb qa) = [] then Fin 0
      else if length q \<le> 10 \<and> fgt (ExactMatch (calculateScore idx q qw qws qt qb qa)) (Fin 0)
      then Fin 1
      else if fge (WordMatch (calculateScore idx q qw qws qt qb qa)) (Fin 0.8) \<and>
              fgt (SubstringMatch (calculateScore idx q qw qws qt qb qa)) (Fin 0)
      then fmin (fmul (spec_finalScore (calculateScore idx q qw qws qt qb qa)) (Fin 1.1)) (Fin 1)
      else spec_finalScore (calculateScore idx q qw qws qt qb qa))"
  unfolding calculateScore_def
  by (simp add: FinalScore_final FinalScore_signals spec_final calculateScore_final_components)

theorem calculateScore_final_score_witness:
  "FinalScore (calculateScore index_a ''ab'' [''ab''] {|''ab''|} {|''ab''|}
                 {|''#a'', ''ab'', ''b#''|} []) = Fin (1 / 2)"
proof -
  have p: "spec_positive (calculateScore index_a ''ab'' [''ab''] {|''ab''|} {|''ab''|}
                 {|''#a'', ''ab'', ''b#''|} []) \<noteq> []"
    by code_simp
  have x: "\<not> fgt (ExactMatch (calculateScore index_a ''ab'' [''ab''] {|''ab''|} {|''ab''|}
                 {|''#a'', ''ab'', ''b#''|} [])) (Fin 0)"
    by code_simp
  have w: "\<not> fge (WordMatch (calculateScore index_a ''ab'' [''ab''] {|''ab''|} {|''ab''|}
                 {|''#a'', ''ab'', ''b#''|} [])) (Fin 0.8)"
    by code_simp
  have s: "spec_finalScore (calculateScore index_a ''ab'' [''ab''] {|''ab''|} {|''ab''|}
                 {|''#a'', ''ab'', ''b#''|} []) = Fin (1 / 2)"
    by code_simp
  show ?thesis
    using calculateScore_final_score [of index_a "''ab''" "[''ab'']" "{|''ab''|}" "{|''ab''|}"
        "{|''#a'', ''ab'', ''b#''|}" "[]"] p x w s
    by simp
qed

lemma index_a_built: "indexItem (\<lambda>t. t) ''a'' = Inr index_a"
  by code_simp

text \<open>
  C1, as stated, fails: for the item \<^verbatim>\<open>a\<close> and the query \<^verbatim>\<open>a\<close> the weighted quotient is
  4.91 / 5 = 0.982, and the final score is 1.0.
\<close>

theorem weighted_quotient_counterexample:
  "FinalScore (calculateScore index_a ''a'' [''a''] {|''a''|} {|''a''|} {|''a''|} []) = Fin 1 \<and>
   spec_finalScore (calculateScore index_a ''a'' [''a''] {|''a''|} {|''a''|} {|''a''|} [])
     = Fin (491 / 500) \<and>
   FinalScore (calculateScore index_a ''a'' [''a''] {|''a''|} {|''a''|} {|''a''|} [])
     \<noteq> spec_finalScore (calculateScore index_a ''a'' [''a''] {|''a''|} {|''a''|} {|''a''|} [])"
proof -
  have f: "FinalScore (calculateScore index_a ''a'' [''a''] {|''a''|} {|''a''|} {|''a''|} []) = Fin 1"
    by code_simp
  have s: "spec_finalScore (calculateScore index_a ''a'' [''a''] {|''a''|} {|''a''|} {|''a''|} [])
             = Fin (491 / 500)"
    by code_simp
  show ?thesis
    unfolding f s by simp
qed

theorem own_text_scores_one_witness:
  "indexItem (\<lambda>t. t) ''a'' = Inr index_a \<and>
   length (LowercaseText index_a) \<le> 10 \<and>
   FinalScore (calculateScore index_a ''a'' [''a''] {|''a''|} {|''a''|} {|''a''|} []) = Fin 1"
proof -
  have n: "ToLower (normalizeText ''a'') = ''a''"
    by code_simp
  have l: "length (LowercaseText index_a) \<le> 10"
    by (simp add: index_a_def)
  show ?thesis
    using own_text_scores_one [of "\<lambda>t. t" "''a''" "[''a'']" "{|''a''|}" "{|''a''|}" "{|''a''|}" "[]"]
      index_a_built l n
    by auto
qed

subsection \<open>Acronyms\<close>

lemma AcronymMatch_signals:
  "AcronymMatch (calculateScore_signals idx q qw qws qt qb qa) =
     (if qa \<noteq> [] \<and> qa = Acronym idx then Fin 0.8 else Fin 0)"
  by (simp add: calculateScore_signals_def Let_def zeroComponents_def)

lemma AcronymMatch_calculateScore:
  "AcronymMatch (calculateScore idx q qw qws qt qb qa) =
     (if qa \<noteq> [] \<and> qa = Acronym idx then Fin 0.8 else Fin 0)"
  by (simp add: calculateScore_def calculateScore_final_components AcronymMatch_signals)

lemma index_lotr_built: "indexItem id ''The Lord of the Rings'' = Inr index_lotr"
proof -
  have n: "normalizeText ''The Lord of the Rings'' = ''The Lord of the Rings''"
    by code_simp
  have l: "ToLower ''The Lord of the Rings'' = ''the lord of the rings''"
    by code_simp
  have w: "extractWords ''the lord of the rings'' = [''the'', ''lord'', ''of'', ''the'', ''rings'']"
    by code_simp
  have s: "createWordSet [''the'', ''lord'', ''of'', ''the'', ''rings'']
             = {|''the'', ''lord'', ''of'', ''rings''|}"
    by code_simp
  have f: "extractFirstLetters [''the'', ''lord'', ''of'', ''the'', ''rings''] = ''tlotr''"
    by code_simp
  have a: "extractAcronym ''The Lord of the Rings'' = ''lr''"
    by code_simp
  show ?thesis
    by (simp add: indexItem_Inr index_lotr_def n l w s f a)
qed

text \<open>
  C4, as stated, fails: the words \<^verbatim>\<open>The\<close>, \<^verbatim>\<open>of\<close> and \<^verbatim>\<open>the\<close> are skipped as stopwords, so the
  stored acronym of \<^verbatim>\<open>The Lord of the Rings\<close> is \<^verbatim>\<open>lr\<close>; the query \<^verbatim>\<open>lotr\<close> has no upper-case
  initial, so its acronym is empty and the acronym component is 0.
\<close>

theorem lotr_acronym_counterexample:
  "indexItem id ''The Lord of the Rings'' = Inr index_lotr \<and>
   Acronym index_lotr = ''lr'' \<and>
   ToLower (normalizeText ''lotr'') = ''lotr'' \<and>
   extractAcronym ''lotr'' = [] \<and>
   AcronymMatch (calculateScore index_lotr ''lotr'' (extractWords ''lotr'')
                   (createWordSet (extractWords ''lotr'')) (ngramsOf ''lotr'' 3)
                   (ngramsOf ''lotr'' 2) (extractAcronym ''lotr'')) = Fin 0 \<and>
   Acronym index_lotr \<noteq> ''lotr'' \<and>
   AcronymMatch (calculateScore index_lotr ''lotr'' (extractWords ''lotr'')
                   (createWordSet (extractWords ''lotr'')) (ngramsOf ''lotr'' 3)
                   (ngramsOf ''lotr'' 2) (extractAcronym ''lotr'')) \<noteq> Fin 0.8"
proof -
  have n: "ToLower (normalizeText ''lotr'') = ''lotr''"
    by code_simp
  have a: "extractAcronym ''lotr'' = []"
    by code_simp
  show ?thesis
    by (simp add: index_lotr_built n a AcronymMatch_calculateScore) (simp add: index_lotr_def)
qed

text \<open>
  C4, as amended. The stored acronym of the item \<^verbatim>\<open>The Lord of the Rings\<close> is \<^verbatim>\<open>lr\<close>, and for
  every query and candidate the acronym component is 0.8 when the query's acronym is
  non-empty and equal, as a string, to the candidate's acronym, and 0.0 otherwise.
\<close>

theorem acronym_match_exact:
  "indexItem id ''The Lord of the Rings'' = Inr index_lotr \<and>
   Acronym index_lotr = extractAcronym ''The Lord of the Rings'' \<and>
   Acronym index_lotr = ''lr'' \<and>
   AcronymMatch (calculateScore idx q qw qws qt qb qa) =
     (if qa \<noteq> [] \<and> qa = Acronym idx then Fin 0.8 else Fin 0)"
proof -
  have a: "extractAcronym ''The Lord of the Rings'' = ''lr''"
    by code_simp
  show ?thesis
    by (simp add: index_lotr_built a AcronymMatch_calculateScore) (simp add: index_lotr_def)
qed

theorem acronym_match_exact_witness:
  "extractAcronym ''Lord Rings'' = ''lr'' \<and>
   AcronymMatch (calculateScore index_lotr ''lord rings'' [''lord'', ''rings'']
                   {|''lord'', ''rings''|} (ngramsOf ''lord rings'' 3) (ngramsOf ''lord rings'' 2)
                   (extractAcronym ''Lord Rings'')) = Fin 0.8 \<and>
   extractAcronym ''LOTR'' = ''l'' \<and>
   AcronymMatch (calculateScore index_lotr ''lotr'' [''lotr''] {|''lotr''|} (ngramsOf ''lotr'' 3)
                   (ngramsOf ''lotr'' 2) (extractAcronym ''LOTR'')) = Fin 0"
proof -
  have a: "extractAcronym ''Lord Rings'' = ''lr''"
    by code_simp
  have b: "extractAcronym ''LOTR'' = ''l''"
    by code_simp
  show ?thesis
    using acronym_match_exact [of index_lotr "''lord rings''" "[''lord'', ''rings'']"
        "{|''lord'', ''rings''|}" "ngramsOf ''lord rings'' 3" "ngramsOf ''lord rings'' 2"
        "extractAcronym ''Lord Rings''"]
      acronym_match_exact [of index_lotr "''lotr''" "[''lotr'']" "{|''lotr''|}"
        "ngramsOf ''lotr'' 3" "ngramsOf ''lotr'' 2" "extractAcronym ''LOTR''"]
    by (simp add: a b)
qed

subsection \<open>The search engine\<close>

lemma fold_filter_map:
  "fold (\<lambda>x acc. if P x then acc @ [g x] else acc) xs acc = acc @ map g (filter P xs)"
  by (induction xs arbitrary: acc) simp_all

lemma scoreCandidates_eq:
  "scoreCandidates is candidates q qw qws qt qb qa =
     map (\<lambda>idx. \<lparr>index = idx, score = FinalScore (calculateScore idx q qw qws qt qb qa),
                 components = calculateScore idx q qw qws qt qb qa\<rparr>)
       (filter (\<lambda>idx. fge (FinalScore (calculateScore idx q qw qws qt qb qa))
                         (fmul (minSimilarity is) (Fin 0.5))) candidates)"
  unfolding scoreCandidates_def Let_def
  using fold_filter_map [where acc = "[]"
      and P = "\<lambda>idx. fge (FinalScore (calculateScore idx q qw qws qt qb qa))
                         (fmul (minSimilarity is) (Fin 0.5))"
      and g = "\<lambda>idx. \<lparr>index = idx, score = FinalScore (calculateScore idx q qw qws qt qb qa),
                 components = calculateScore idx q qw qws qt qb qa\<rparr>"
      and xs = candidates]
  by simp

lemma filterItems_Some:
  "filterItems is (Some f) = filter (\<lambda>idx. Matches f (Item idx)) (searchIndex is)"
  unfolding filterItems_def
  using fold_filter_map [where acc = "[]" and P = "\<lambda>idx. Matches f (Item idx)"
      and g = "\<lambda>idx. idx" and xs = "searchIndex is"]
  by simp

lemma filterItems_None: "filterItems is None = searchIndex is"
  by (simp add: filterItems_def)

lemma scoreCandidates_query:
  "scoreCandidates is candidates (ToLower (normalizeText (Query req)))
       (extractWords (ToLower (normalizeText (Query req))))
       (createWordSet (extractWords (ToLower (normalizeText (Query req)))))
       (ngramsOf (ToLower (normalizeText (Query req))) 3)
       (ngramsOf (ToLower (normalizeText (Query req))) 2)
       (extractAcronym (Query req))
     = map (scored req)
         (filter (\<lambda>idx. fge (FinalScore (queryScore req idx)) (coarseThreshold is)) candidates)"
  by (simp add: scoreCandidates_eq queryScore_def Let_def scored_def coarseThreshold_def)

lemma Search_blank:
  "TrimSpace (Query req) = [] \<Longrightarrow>
     Search sortSlice fmt2f is req = Inr (Single (errorResponse ''Query cannot be empty''), is)"
  by (simp add: Search_def)

lemma Search_no_candidates:
  "TrimSpace (Query req) \<noteq> [] \<Longrightarrow> filterItems is (Filters req) = [] \<Longrightarrow>
     Search sortSlice fmt2f is req =
       Inr (Single (errorResponse
              (case Filters req of
                 None \<Rightarrow> ''No items found matching the filter criteria''
               | Some f \<Rightarrow> ''No items found matching filter: '' @ Description f)), is)"
  by (simp add: Search_def Let_def createCharNgrams_23)

lemma Search_candidates:
  assumes "TrimSpace (Query req) \<noteq> []" "filterItems is (Filters req) \<noteq> []"
  shows "Search sortSlice fmt2f is req =
     (let results = sortSlice (map (scored req) (survivors is req));
          topN = clampTopN (TopN req) (int (length results));
          nCandidates = int (length (filterItems is (Filters req)))
      in if topN = 0 then Inr (Single (noMatches req), is)
         else if topN > 1
         then Inr (Multi
                \<lparr>Results = map (rankedResponse fmt2f is req (normalizeText (Query req))
                                  nCandidates results) [0..<nat topN],
                 MQuery = Query req,
                 TotalFound = nCandidates,
                 MFilters = Filters req,
                 MMessage = ''Found '' @ itoa nCandidates @ '' items'' @
                   (case Filters req of
                      None \<Rightarrow> []
                    | Some f \<Rightarrow> '' with filter: '' @ Description f) @
                   '' matching '' @ [CHR 0x27] @ Query req @ [CHR 0x27]\<rparr>,
               is)
         else Inr (Single (bestResponse fmt2f is req (normalizeText (Query req))
                             nCandidates results), is))"
  using assms
  by (simp add: Search_def Let_def createCharNgrams_23 scoreCandidates_query survivors_def
      noMatches_def errorResponse_def)

lemma scored_simps:
  "index (scored req idx) = idx" "score (scored req idx) = FinalScore (queryScore req idx)"
  by (simp_all add: scored_def)

lemma score_scored_not_NaN: "x \<in> set (map (scored req) xs) \<Longrightarrow> score x \<noteq> NaN"
  by (auto simp: scored_def queryScore_def Let_def FinalScore_not_NaN)

lemma sortsDescending_mset:
  "sortsDescending sortSlice \<Longrightarrow>
     mset (sortSlice (map (scored req) xs)) = mset (map (scored req) xs)"
  unfolding sortsDescending_def using score_scored_not_NaN by blast

lemma sortsDescending_sorted:
  "sortsDescending sortSlice \<Longrightarrow>
     sorted_wrt (\<lambda>a b. \<not> fgt (score b) (score a)) (sortSlice (map (scored req) xs))"
  unfolding sortsDescending_def using score_scored_not_NaN by blast

lemma sortsDescending_length:
  "sortsDescending sortSlice \<Longrightarrow> length (sortSlice (map (scored req) xs)) = length xs"
  using sortsDescending_mset [of sortSlice req xs] by (metis length_map size_mset)

lemma sortsDescending_set:
  "sortsDescending sortSlice \<Longrightarrow> set (sortSlice (map (scored req) xs)) = scored req ` set xs"
  using sortsDescending_mset [of sortSlice req xs] by (metis set_map set_mset_mset)

lemma not_fgt_fge: "a \<noteq> NaN \<Longrightarrow> b \<noteq> NaN \<Longrightarrow> \<not> fgt b a \<Longrightarrow> fge a b"
  by (cases a; cases b) simp_all

lemma not_fgt_trans:
  "a \<noteq> NaN \<Longrightarrow> b \<noteq> NaN \<Longrightarrow> c \<noteq> NaN \<Longrightarrow> \<not> fgt c b \<Longrightarrow> \<not> fgt b a \<Longrightarrow> \<not> fgt c a"
  by (cases a; cases b; cases c) simp_all

lemma fgt_asym: "fgt a b \<Longrightarrow> \<not> fgt b a"
  by (cases a; cases b) simp_all

lemma mset_insertByScore: "mset (insertByScore x ys) = add_mset x (mset ys)"
  by (induction ys) simp_all

lemma set_insertByScore: "set (insertByScore x ys) = insert x (set ys)"
  by (induction ys) auto

lemma sorted_insertByScore:
  assumes "sorted_wrt (\<lambda>a b. \<not> fgt (score b) (score a)) ys"
    and "score x \<noteq> NaN" and "\<forall>y \<in> set ys. score y \<noteq> NaN"
  shows "sorted_wrt (\<lambda>a b. \<not> fgt (score b) (score a)) (insertByScore x ys)"
  using assms
proof (induction ys)
  case Nil
  then show ?case by simp
next
  case (Cons y ys)
  show ?case
  proof (cases "fgt (score y) (score x)")
    case True
    then show ?thesis
      using Cons by (auto simp: set_insertByScore fgt_asym)
  next
    case False
    have "\<not> fgt (score z) (score x)" if "z \<in> set ys" for z
      using that Cons.prems False not_fgt_trans [of "score x" "score y" "score z"] by auto
    then show ?thesis
      using Cons.prems False by auto
  qed
qed

lemma insertionSort_sorts: "sortsDescending insertionSort"
proof -
  have m: "mset (insertionSort xs) = mset xs" for xs :: "'a scoredResult list"
    by (induction xs) (simp_all add: insertionSort_def mset_insertByScore)
  have s: "sorted_wrt (\<lambda>a b. \<not> fgt (score b) (score a)) (insertionSort xs)"
    if "\<forall>x \<in> set xs. score x \<noteq> NaN" for xs :: "'a scoredResult list"
    using that
  proof (induction xs)
    case Nil
    then show ?case by (simp add: insertionSort_def)
  next
    case (Cons x xs)
    have "set (insertionSort xs) = set xs"
      using m [of xs] by (metis set_mset_mset)
    then have "sorted_wrt (\<lambda>a b. \<not> fgt (score b) (score a)) (insertByScore x (insertionSort xs))"
      using Cons by (intro sorted_insertByScore) auto
    then show ?case by (simp add: insertionSort_def)
  qed
  show ?thesis
    unfolding sortsDescending_def using m s by blast
qed

text \<open>
  C10. For every search request, \<^verbatim>\<open>Search\<close> returns (it does not panic) and leaves the
  searcher unchanged: the items, the search index, the minSimilarity threshold and the
  debugMode flag after the call are those before the call.
\<close>

theorem Search_leaves_searcher:
  "\<exists>out is'. Search sortSlice fmt2f is req = Inr (out, is') \<and>
      items is' = items is \<and> searchIndex is' = searchIndex is \<and>
      minSimilarity is' = minSimilarity is \<and> debugMode is' = debugMode is \<and> is' = is"
proof (cases "TrimSpace (Query req) = []")
  case True
  then show ?thesis by (simp add: Search_blank)
next
  case nb: False
  show ?thesis
  proof (cases "filterItems is (Filters req) = []")
    case True
    then show ?thesis using nb by (simp add: Search_no_candidates)
  next
    case False
    then show ?thesis using nb by (simp add: Search_candidates Let_def)
  qed
qed

lemma clampTopN_range:
  assumes "1 \<le> k"
  shows "1 \<le> clampTopN t k" "clampTopN t k \<le> 10" "clampTopN t k \<le> k"
    "clampTopN t k = max 1 (min (min 10 k) (case t of None \<Rightarrow> 1 | Some n \<Rightarrow> n))"
  using assms by (auto simp: clampTopN_def Let_def split: option.splits)

lemma clampTopN_0: "clampTopN t 0 = 0"
  by (auto simp: clampTopN_def Let_def split: option.splits)

lemma sorted_wrt_upt: "(\<And>i j. i < j \<Longrightarrow> j < m \<Longrightarrow> P i j) \<Longrightarrow> sorted_wrt P [0..<m]"
  by (simp add: sorted_wrt_iff_nth_less)

lemma results_nth:
  assumes "sortsDescending sortSlice" "i < length xs"
  shows "\<exists>idx \<in> set xs. sortSlice (map (scored req) xs) ! i = scored req idx"
proof -
  have "sortSlice (map (scored req) xs) ! i \<in> set (sortSlice (map (scored req) xs))"
    using assms by (simp add: sortsDescending_length)
  then show ?thesis
    using sortsDescending_set [OF assms(1), of req xs] by auto
qed

lemma results_descending:
  assumes "sortsDescending sortSlice" "i < j" "j < length xs"
  shows "fge (score (sortSlice (map (scored req) xs) ! i)) (score (sortSlice (map (scored req) xs) ! j))"
proof -
  let ?rs = "sortSlice (map (scored req) xs)"
  have "\<not> fgt (score (?rs ! j)) (score (?rs ! i))"
    using sortsDescending_sorted [OF assms(1), of req xs] assms(2,3)
    by (simp add: sorted_wrt_iff_nth_less sortsDescending_length [OF assms(1)])
  moreover have "score (?rs ! i) \<noteq> NaN" "score (?rs ! j) \<noteq> NaN"
    using results_nth [OF assms(1), of i xs req] results_nth [OF assms(1), of j xs req] assms(2,3)
    by (auto simp: scored_def queryScore_def Let_def FinalScore_not_NaN)
  ultimately show ?thesis
    by (intro not_fgt_fge)
qed

lemma responseItems_error: "responseItems (errorResponse m) = []"
  by (simp add: responseItems_def errorResponse_def)

lemma Search_items_survive:
  assumes "sortsDescending sortSlice"
  shows "\<exists>out. Search sortSlice fmt2f is req = Inr (out, is) \<and>
           set (outcomeItems out) \<subseteq> Item ` set (survivors is req)"
proof (cases "TrimSpace (Query req) = []")
  case True
  then show ?thesis
    by (simp add: Search_blank outcomeItems_def responseItems_error)
next
  case nb: False
  show ?thesis
  proof (cases "filterItems is (Filters req) = []")
    case True
    then show ?thesis
      using nb by (simp add: Search_no_candidates outcomeItems_def responseItems_error)
  next
    case cand: False
    let ?rs = "sortSlice (map (scored req) (survivors is req))"
    let ?k = "int (length (survivors is req))"
    let ?n = "clampTopN (TopN req) ?k"
    have len: "int (length ?rs) = ?k"
      using assms by (simp add: sortsDescending_length)
    show ?thesis
    proof (cases "survivors is req = []")
      case True
      then have "?n = 0" by (simp add: clampTopN_0)
      then show ?thesis
        by (simp add: Search_candidates [OF nb cand] Let_def len outcomeItems_def noMatches_def
            responseItems_def)
    next
      case ne: False
      then have k1: "1 \<le> ?k" by (cases "survivors is req") simp_all
      note range = clampTopN_range [OF k1, of "TopN req"]
      have item: "Item (index (?rs ! i)) \<in> Item ` set (survivors is req)"
        if "i < length (survivors is req)" for i
        using results_nth [OF assms that, of req] by (auto simp: scored_def)
      show ?thesis
      proof (cases "?n > 1")
        case True
        have "Item (index (?rs ! i)) \<in> Item ` set (survivors is req)" if "i < nat ?n" for i
          using that range(3) by (intro item) simp
        then show ?thesis
          using True
          by (auto simp: Search_candidates [OF nb cand] Let_def len outcomeItems_def
              responseItems_def rankedResponse_def)
      next
        case False
        then have "?n = 1" using range(1) by simp
        moreover have "Item (index (?rs ! 0)) \<in> Item ` set (survivors is req)"
          using ne by (intro item) simp
        ultimately show ?thesis
          by (simp add: Search_candidates [OF nb cand] Let_def len outcomeItems_def
              responseItems_def bestResponse_def)
      qed
    qed
  qed
qed

text \<open>
  C9. For every search call carrying a filter, only items that satisfy the filter's predicate
  are candidates for scoring, and every item in the returned outcome (the single best match
  or any entry of the multi-result list) satisfies it.
\<close>

theorem filter_respected:
  assumes "sortsDescending sortSlice" and "Filters req = Some f"
  shows "(\<forall>idx \<in> set (filterItems is (Filters req)). Matches f (Item idx)) \<and>
         (\<exists>out. Search sortSlice fmt2f is req = Inr (out, is) \<and>
            (\<forall>it \<in> set (outcomeItems out). Matches f it))"
proof -
  have c: "\<forall>idx \<in> set (filterItems is (Filters req)). Matches f (Item idx)"
    by (simp add: assms(2) filterItems_Some)
  then have "\<forall>it \<in> Item ` set (survivors is req). Matches f it"
    by (auto simp: survivors_def)
  then show ?thesis
    using c Search_items_survive [OF assms(1), of fmt2f "is" req] by blast
qed

lemma searcher_demo_built:
  "NewImprovedSearcher id [''a'', ''The Lord of the Rings''] (Fin 0.3) False = Inr searcher_demo"
proof -
  have "indexItem id ''a'' = Inr index_a"
    by code_simp
  then show ?thesis
    by (simp add: NewImprovedSearcher_def index_lotr_built searcher_demo_def)
qed

lemma demo_scores:
  "FinalScore (queryScore (request ''a'' f n) index_a) = Fin 1"
  "FinalScore (queryScore (request ''a'' f n) index_lotr) = Fin 0"
proof -
  have q: "queryScore (request ''a'' f n) idx = queryScore (request ''a'' None None) idx" for idx :: "string SearchIndex"
    by (simp add: queryScore_def request_def)
  have "FinalScore (queryScore (request ''a'' None None) index_a) = Fin 1"
    by code_simp
  moreover have "FinalScore (queryScore (request ''a'' None None) index_lotr) = Fin 0"
    by code_simp
  ultimately show "FinalScore (queryScore (request ''a'' f n) index_a) = Fin 1"
    "FinalScore (queryScore (request ''a'' f n) index_lotr) = Fin 0"
    by (simp_all add: q)
qed

lemma request_simps:
  "Query (request q f n) = q" "Filters (request q f n) = f" "TopN (request q f n) = n"
  "Debug (request q f n) = None"
  by (simp_all add: request_def)

lemma demo_survivors:
  "survivors searcher_all (request ''a'' None n) = [index_a, index_lotr]"
  "survivors searcher_demo (request ''a'' None n) = [index_a]"
  by (simp_all add: survivors_def filterItems_None coarseThreshold_def demo_scores
      searcher_all_def searcher_demo_def request_simps)

theorem filter_respected_witness:
  "sortsDescending (insertionSort :: string scoredResult list \<Rightarrow> string scoredResult list) \<and>
   Filters (request ''a'' (Some filter_a) (Some 3)) = Some filter_a \<and>
   filterItems searcher_all (Some filter_a) = [index_a] \<and>
   (\<exists>out. Search insertionSort (\<lambda>x. []) searcher_all (request ''a'' (Some filter_a) (Some 3))
             = Inr (out, searcher_all) \<and>
          (\<forall>it \<in> set (outcomeItems out). it = ''a''))"
proof -
  have f: "Filters (request ''a'' (Some filter_a) (Some 3)) = Some filter_a"
    by (simp add: request_def)
  have m: "Matches filter_a it = (it = ''a'')" for it
    by (simp add: filter_a_def)
  have c: "filterItems searcher_all (Some filter_a) = [index_a]"
    by (simp add: filterItems_Some m searcher_all_def searcher_demo_def index_a_def index_lotr_def)
  show ?thesis
    using filter_respected [OF insertionSort_sorts f, where ?fmt2f = "\<lambda>x. []" and ?is = searcher_all]
      insertionSort_sorts [where ?'a = string]
    by (simp add: f c m)
qed

lemma demo_single:
  "Search insertionSort (\<lambda>x. []) searcher_demo (request ''a'' None None) =
     Inr (Single \<lparr>RItem = Some ''a'', Similarity = Fin 1,
                  Message = ''Found item with % similarity'', Error = [], RDebug = None\<rparr>,
          searcher_demo)"
proof -
  have nb: "TrimSpace (Query (request ''a'' None None)) \<noteq> []"
    by code_simp
  have c: "filterItems searcher_demo (Filters (request ''a'' None None)) \<noteq> []"
    by (simp add: request_simps filterItems_None searcher_demo_def)
  have i: "Item index_a = ''a''"
    by (simp add: index_a_def)
  show ?thesis
    by (simp add: Search_candidates [OF nb c] Let_def demo_survivors insertionSort_def
        clampTopN_def bestResponse_def scored_def demo_scores debugInfo_def request_simps i)
       (simp add: searcher_demo_def)
qed

theorem Search_leaves_searcher_witness:
  "Search insertionSort (\<lambda>x. []) searcher_demo (request ''a'' None None) =
     Inr (Single \<lparr>RItem = Some ''a'', Similarity = Fin 1,
                  Message = ''Found item with % similarity'', Error = [], RDebug = None\<rparr>,
          searcher_demo) \<and>
   (\<exists>out is'. Search insertionSort (\<lambda>x. []) searcher_demo (request ''a'' None None)
                 = Inr (out, is') \<and>
      items is' = [''a'', ''The Lord of the Rings''] \<and> searchIndex is' = [index_a, index_lotr] \<and>
      minSimilarity is' = Fin 0.3 \<and> debugMode is' = False)"
proof -
  have d: "items searcher_demo = [''a'', ''The Lord of the Rings'']"
    "searchIndex searcher_demo = [index_a, index_lotr]"
    "minSimilarity searcher_demo = Fin 0.3" "debugMode searcher_demo = False"
    by (simp_all add: searcher_demo_def)
  show ?thesis
    using Search_leaves_searcher [of insertionSort "\<lambda>x. []" searcher_demo "request ''a'' None None"]
      demo_single
    unfolding d by blast
qed

subsection \<open>The search engine on every machine\<close>

lemma mset_insertBy: "mset (insertBy lt x ys) = add_mset x (mset ys)"
  by (induction ys) simp_all

lemma set_insertBy: "set (insertBy lt x ys) = insert x (set ys)"
  by (induction ys) auto

lemma mset_insertionSortBy: "mset (insertionSortBy lt xs) = mset xs"
  by (induction xs) (simp_all add: insertionSortBy_def mset_insertBy)

lemma swo_irrefl: "strictWeakOrder lt A \<Longrightarrow> a \<in> A \<Longrightarrow> \<not> lt a a"
  unfolding strictWeakOrder_def by fast

lemma swo_trans:
  "strictWeakOrder lt A \<Longrightarrow> a \<in> A \<Longrightarrow> b \<in> A \<Longrightarrow> c \<in> A \<Longrightarrow> lt a b \<Longrightarrow> lt b c \<Longrightarrow> lt a c"
  unfolding strictWeakOrder_def by fast

lemma swo_ntrans:
  "strictWeakOrder lt A \<Longrightarrow> a \<in> A \<Longrightarrow> b \<in> A \<Longrightarrow> c \<in> A \<Longrightarrow> \<not> lt a b \<Longrightarrow> \<not> lt b c \<Longrightarrow> \<not> lt a c"
  unfolding strictWeakOrder_def by fast

lemma strictWeakOrder_subset:
  assumes "strictWeakOrder lt A" "B \<subseteq> A"
  shows "strictWeakOrder lt B"
  unfolding strictWeakOrder_def
proof (intro conjI ballI impI)
  fix a assume "a \<in> B"
  then show "\<not> lt a a" using swo_irrefl [OF assms(1)] assms(2) by blast
next
  fix a b c assume "a \<in> B" "b \<in> B" "c \<in> B" "lt a b" "lt b c"
  then show "lt a c" using swo_trans [OF assms(1), of a b c] assms(2) by blast
next
  fix a b c assume "a \<in> B" "b \<in> B" "c \<in> B" "\<not> lt a b" "\<not> lt b c"
  then show "\<not> lt a c" using swo_ntrans [OF assms(1), of a b c] assms(2) by blast
qed

lemma sorted_insertBy:
  assumes "strictWeakOrder lt (insert x (set ys))"
    and "sorted_wrt (\<lambda>a b. \<not> lt b a) ys"
  shows "sorted_wrt (\<lambda>a b. \<not> lt b a) (insertBy lt x ys)"
  using assms
proof (induction ys)
  case Nil
  then show ?case by simp
next
  case (Cons y ys)
  note swo = Cons.prems(1)
  have mem: "x \<in> insert x (set (y # ys))" "y \<in> insert x (set (y # ys))"
    by simp_all
  have sub: "strictWeakOrder lt (insert x (set ys))"
    by (rule strictWeakOrder_subset [OF swo]) auto
  have sy: "sorted_wrt (\<lambda>a b. \<not> lt b a) ys" and hy: "\<forall>z \<in> set ys. \<not> lt z y"
    using Cons.prems(2) by simp_all
  show ?case
  proof (cases "lt y x")
    case True
    have nxy: "\<not> lt x y"
    proof
      assume "lt x y"
      then have "lt x x" using swo_trans [OF swo mem(1) mem(2) mem(1)] True by simp
      then show False using swo_irrefl [OF swo mem(1)] by simp
    qed
    have "sorted_wrt (\<lambda>a b. \<not> lt b a) (insertBy lt x ys)"
      using sub sy by (rule Cons.IH)
    then show ?thesis
      using True nxy hy by (simp add: set_insertBy)
  next
    case False
    have "\<not> lt z x" if "z \<in> set ys" for z
    proof -
      have zm: "z \<in> insert x (set (y # ys))" using that by simp
      have "\<not> lt z y" using hy that by simp
      then show ?thesis using swo_ntrans [OF swo zm mem(2) mem(1)] False by simp
    qed
    then show ?thesis
      using False sy hy by simp
  qed
qed

lemma sorted_insertionSortBy:
  "strictWeakOrder lt (set xs) \<Longrightarrow> sorted_wrt (\<lambda>a b. \<not> lt b a) (insertionSortBy lt xs)"
proof (induction xs)
  case Nil
  then show ?case by (simp add: insertionSortBy_def)
next
  case (Cons x xs)
  have s: "set (insertionSortBy lt xs) = set xs"
    using mset_insertionSortBy [of lt xs] by (metis set_mset_mset)
  have "strictWeakOrder lt (set xs)"
    by (rule strictWeakOrder_subset [OF Cons.prems]) auto
  then have "sorted_wrt (\<lambda>a b. \<not> lt b a) (insertionSortBy lt xs)"
    by (rule Cons.IH)
  then have "sorted_wrt (\<lambda>a b. \<not> lt b a) (insertBy lt x (insertionSortBy lt xs))"
    using Cons.prems by (intro sorted_insertBy) (simp_all add: s)
  then show ?case by (simp add: insertionSortBy_def)
qed

lemma insertionSortBy_contract: "sortSliceContract insertionSortBy"
  unfolding sortSliceContract_def
  by (simp add: mset_insertionSortBy sorted_insertionSortBy)

lemma scoredOn_fun:
  "scoredOn M req =
     (\<lambda>idx. \<lparr>index = idx, score = FinalScore (scoreOn M (Query req) idx),
              components = scoreOn M (Query req) idx\<rparr>)"
  by (rule ext) (simp add: scoredOn_def)

lemma scoreCandidatesOn_eq:
  "scoreCandidatesOn M is req candidates =
     map (scoredOn M req)
       (filter (\<lambda>idx. fge (FinalScore (scoreOn M (Query req) idx)) (mulOn M (minSimilarity is) (Fin 0.5)))
          candidates)"
  unfolding scoreCandidatesOn_def Let_def scoredOn_fun
  by (rule fold_filter_map [where acc = "[]", simplified])

lemma SearchOn_candidates:
  assumes "\<not> isBlankOn M (Query req)" "filterItems is (Filters req) \<noteq> []"
  shows "SearchOn M is req =
     (let results = rankedOn M is req;
          topN = clampTopN (TopN req) (int (length results));
          nCandidates = int (length (filterItems is (Filters req)))
      in if topN = 0 then (Single (noMatches req), is)
         else if topN > 1
         then (Multi
                \<lparr>Results = map (rankedResponseOn M is req (normalizeOn M (Query req))
                                  nCandidates results) [0..<nat topN],
                 MQuery = Query req,
                 TotalFound = nCandidates,
                 MFilters = Filters req,
                 MMessage = ''Found '' @ itoa nCandidates @ '' items'' @
                   (case Filters req of
                      None \<Rightarrow> []
                    | Some f \<Rightarrow> '' with filter: '' @ Description f) @
                   '' matching '' @ [CHR 0x27] @ Query req @ [CHR 0x27]\<rparr>,
               is)
         else (Single (bestResponseOn M is req (normalizeOn M (Query req)) nCandidates results),
               is))"
  using assms
  by (simp add: SearchOn_def Let_def scoreCandidatesOn_eq rankedOn_def survivorsOn_def
      noMatches_def errorResponse_def)

lemma ranked_mset:
  "sortSliceContract (sortOn M) \<Longrightarrow>
     mset (rankedOn M is req) = mset (map (scoredOn M req) (survivorsOn M is req))"
  by (simp add: sortSliceContract_def rankedOn_def)

lemma ranked_length:
  "sortSliceContract (sortOn M) \<Longrightarrow> length (rankedOn M is req) = length (survivorsOn M is req)"
  using ranked_mset [of M "is" req] by (metis length_map size_mset)

lemma ranked_set:
  "sortSliceContract (sortOn M) \<Longrightarrow>
     set (rankedOn M is req) = scoredOn M req ` set (survivorsOn M is req)"
  using ranked_mset [of M "is" req] by (metis set_map set_mset_mset)

lemma fgt_irrefl: "\<not> fgt a a"
  by (cases a) simp_all

lemma fgt_trans: "fgt a b \<Longrightarrow> fgt b c \<Longrightarrow> fgt a c"
  by (cases a; cases b; cases c) simp_all

lemma score_order:
  assumes "\<forall>r \<in> A. score r \<noteq> NaN"
  shows "strictWeakOrder (\<lambda>a b. fgt (score a) (score b)) A"
  unfolding strictWeakOrder_def
proof (intro conjI ballI impI)
  fix a show "\<not> fgt (score a) (score a)" by (rule fgt_irrefl)
next
  fix a b c assume "fgt (score a) (score b)" "fgt (score b) (score c)"
  then show "fgt (score a) (score c)" by (rule fgt_trans)
next
  fix a b c assume "a \<in> A" "b \<in> A" "c \<in> A"
    and "\<not> fgt (score a) (score b)" "\<not> fgt (score b) (score c)"
  then show "\<not> fgt (score a) (score c)"
    using assms not_fgt_trans [of "score c" "score b" "score a"] by blast
qed

lemma ranked_sorted:
  assumes "sortSliceContract (sortOn M)"
    and "\<forall>idx \<in> set (survivorsOn M is req). FinalScore (scoreOn M (Query req) idx) \<noteq> NaN"
  shows "sorted_wrt (\<lambda>a b. fge (score a) (score b)) (rankedOn M is req)"
proof -
  let ?xs = "map (scoredOn M req) (survivorsOn M is req)"
  have nn: "\<forall>r \<in> set ?xs. score r \<noteq> NaN"
    using assms(2) by (auto simp: scoredOn_def)
  then have "strictWeakOrder (\<lambda>a b. fgt (score a) (score b)) (set ?xs)"
    by (rule score_order)
  then have s: "sorted_wrt (\<lambda>a b. \<not> fgt (score b) (score a)) (rankedOn M is req)"
    using assms(1) unfolding sortSliceContract_def rankedOn_def by blast
  have "set (rankedOn M is req) = set ?xs"
    using ranked_set [OF assms(1), of "is" req] by simp
  then have "\<forall>r \<in> set (rankedOn M is req). score r \<noteq> NaN"
    using nn by simp
  then show ?thesis
    using s by (intro sorted_wrt_mono_rel [OF _ s]) (auto intro: not_fgt_fge)
qed

lemma map_nth_take: "n \<le> length xs \<Longrightarrow> map (\<lambda>i. g (xs ! i)) [0..<n] = map g (take n xs)"
  by (simp add: list_eq_iff_nth_eq)

lemma ranked_nth:
  assumes "sortSliceContract (sortOn M)" "i < length (survivorsOn M is req)"
  shows "\<exists>idx \<in> set (survivorsOn M is req). rankedOn M is req ! i = scoredOn M req idx"
proof -
  have "rankedOn M is req ! i \<in> set (rankedOn M is req)"
    using assms by (simp add: ranked_length)
  then show ?thesis
    using ranked_set [OF assms(1), of "is" req] by auto
qed

text \<open>
  C2. On every machine, for every search call that reaches the scoring stage (the query is
  not blank and the filter leaves candidates): the ranked result list holds exactly the
  candidates whose final score is at least minSimilarity times 0.5, each with its score;
  if every candidate scores below that threshold, \<^verbatim>\<open>Search\<close> returns the error outcome whose
  message names the original query and which carries no item; and if some candidate reaches
  it, \<^verbatim>\<open>Search\<close> returns no error but the first topN entries of the ranked list, items and
  scores.
\<close>

theorem Search_coarse_threshold:
  assumes "sortSliceContract (sortOn M)"
    and "\<not> isBlankOn M (Query req)"
    and "filterItems is (Filters req) \<noteq> []"
  shows "mset (map index (rankedOn M is req)) =
           mset (filter (\<lambda>idx. fge (FinalScore (scoreOn M (Query req) idx))
                                   (mulOn M (minSimilarity is) (Fin 0.5)))
                  (filterItems is (Filters req))) \<and>
         (\<forall>r \<in> set (rankedOn M is req). score r = FinalScore (scoreOn M (Query req) (index r))) \<and>
         ((\<forall>idx \<in> set (filterItems is (Filters req)).
              \<not> fge (FinalScore (scoreOn M (Query req) idx)) (mulOn M (minSimilarity is) (Fin 0.5))) \<longrightarrow>
          SearchOn M is req =
            (Single \<lparr>RItem = None, Similarity = Fin 0, Message = [],
                     Error = ''No matches found for '' @ [CHR 0x27] @ Query req @ [CHR 0x27],
                     RDebug = None\<rparr>, is)) \<and>
         ((\<exists>idx \<in> set (filterItems is (Filters req)).
              fge (FinalScore (scoreOn M (Query req) idx)) (mulOn M (minSimilarity is) (Fin 0.5))) \<longrightarrow>
          snd (SearchOn M is req) = is \<and>
          outcomeErrors (fst (SearchOn M is req)) = [] \<and>
          1 \<le> clampTopN (TopN req) (int (length (rankedOn M is req))) \<and>
          outcomeMatches (fst (SearchOn M is req)) =
            map (\<lambda>r. (Item (index r), score r))
              (take (nat (clampTopN (TopN req) (int (length (rankedOn M is req)))))
                 (rankedOn M is req)))"
proof (intro conjI impI)
  let ?P = "\<lambda>idx. fge (FinalScore (scoreOn M (Query req) idx)) (mulOn M (minSimilarity is) (Fin 0.5))"
  let ?R = "rankedOn M is req"
  have m: "mset ?R = mset (map (scoredOn M req) (survivorsOn M is req))"
    by (rule ranked_mset [OF assms(1)])
  then have "mset (map index ?R) = mset (map index (map (scoredOn M req) (survivorsOn M is req)))"
    by (metis mset_map)
  also have "map index (map (scoredOn M req) (survivorsOn M is req)) = survivorsOn M is req"
    by (simp add: comp_def scoredOn_def)
  finally show "mset (map index ?R) = mset (filter ?P (filterItems is (Filters req)))"
    by (simp add: survivorsOn_def)
  show "\<forall>r \<in> set ?R. score r = FinalScore (scoreOn M (Query req) (index r))"
    using ranked_set [OF assms(1), of "is" req] by (auto simp: scoredOn_def)
next
  assume "\<forall>idx \<in> set (filterItems is (Filters req)).
              \<not> fge (FinalScore (scoreOn M (Query req) idx)) (mulOn M (minSimilarity is) (Fin 0.5))"
  then have "survivorsOn M is req = []"
    by (simp add: survivorsOn_def filter_empty_conv)
  then have "length (rankedOn M is req) = 0"
    using ranked_length [OF assms(1), of "is" req] by simp
  then show "SearchOn M is req =
            (Single \<lparr>RItem = None, Similarity = Fin 0, Message = [],
                     Error = ''No matches found for '' @ [CHR 0x27] @ Query req @ [CHR 0x27],
                     RDebug = None\<rparr>, is)"
    by (simp add: SearchOn_candidates [OF assms(2,3)] Let_def clampTopN_0 noMatches_def)
next
  let ?R = "rankedOn M is req"
  let ?n = "clampTopN (TopN req) (int (length ?R))"
  let ?g = "\<lambda>r. (Item (index r), score r)"
  assume "\<exists>idx \<in> set (filterItems is (Filters req)).
              fge (FinalScore (scoreOn M (Query req) idx)) (mulOn M (minSimilarity is) (Fin 0.5))"
  then have "survivorsOn M is req \<noteq> []"
    by (auto simp: survivorsOn_def filter_empty_conv)
  then have k1: "1 \<le> int (length ?R)"
    using ranked_length [OF assms(1), of "is" req] by (cases "survivorsOn M is req") simp_all
  note range = clampTopN_range [OF k1, of "TopN req"]
  have le: "nat ?n \<le> length ?R"
    using range(3) by simp
  have multi: "concat (map (\<lambda>r. case RItem r of None \<Rightarrow> [] | Some it \<Rightarrow> [(it, Similarity r)])
                 (map (rankedResponseOn M is req nq nc ?R) [0..<nat ?n]))
               = map ?g (take (nat ?n) ?R)" for nq nc
  proof -
    have "concat (map (\<lambda>r. case RItem r of None \<Rightarrow> [] | Some it \<Rightarrow> [(it, Similarity r)])
                 (map (rankedResponseOn M is req nq nc ?R) [0..<nat ?n]))
          = map (\<lambda>i. ?g (?R ! i)) [0..<nat ?n]"
      by (simp add: rankedResponseOn_def Let_def comp_def concat_map_singleton)
    also have "\<dots> = map ?g (take (nat ?n) ?R)"
      by (rule map_nth_take [OF le])
    finally show ?thesis .
  qed
  have single: "[?g (?R ! 0)] = map ?g (take 1 ?R)"
    using k1 by (cases ?R) simp_all
  show "snd (SearchOn M is req) = is"
    using range(1) by (simp add: SearchOn_candidates [OF assms(2,3)] Let_def)
  show "1 \<le> ?n" by (rule range(1))
  show "outcomeErrors (fst (SearchOn M is req)) = []"
    using range(1)
    by (simp add: SearchOn_candidates [OF assms(2,3)] Let_def outcomeErrors_def
        bestResponseOn_def rankedResponseOn_def comp_def)
  show "outcomeMatches (fst (SearchOn M is req)) = map ?g (take (nat ?n) ?R)"
  proof (cases "?n > 1")
    case True
    then show ?thesis
      using range(1) multi [of "normalizeOn M (Query req)" "int (length (filterItems is (Filters req)))"]
      by (simp add: SearchOn_candidates [OF assms(2,3)] Let_def outcomeMatches_def)
  next
    case False
    then have n1: "?n = 1" using range(1) by simp
    show ?thesis
      using single
      by (simp add: SearchOn_candidates [OF assms(2,3)] Let_def outcomeMatches_def n1
          bestResponseOn_def)
  qed
qed

text \<open>
  C5. On every machine, for every search call with a non-blank query and at least one
  candidate surviving the coarse threshold: the effective topN (1 when absent) is clamped
  into [1, min(10, number of survivors)]; the ranked list is a permutation of the scored
  survivors in descending order of score; when topN is 1 the call returns the single-result
  outcome of the first ranked entry (its item, its score), otherwise a multi-result outcome
  with exactly topN entries, entry i carrying the item, the score and the rank message of
  the i-th ranked entry, in descending order of similarity.
\<close>

theorem Search_topN_ranked:
  assumes "sortSliceContract (sortOn M)"
    and "\<not> isBlankOn M (Query req)"
    and "survivorsOn M is req \<noteq> []"
    and "\<forall>idx \<in> set (survivorsOn M is req). FinalScore (scoreOn M (Query req) idx) \<noteq> NaN"
  shows "1 \<le> clampTopN (TopN req) (int (length (survivorsOn M is req))) \<and>
         clampTopN (TopN req) (int (length (survivorsOn M is req)))
           \<le> min 10 (int (length (survivorsOn M is req))) \<and>
         clampTopN (TopN req) (int (length (survivorsOn M is req))) =
           max 1 (min (min 10 (int (length (survivorsOn M is req))))
                      (case TopN req of None \<Rightarrow> 1 | Some t \<Rightarrow> t)) \<and>
         mset (rankedOn M is req) = mset (map (scoredOn M req) (survivorsOn M is req)) \<and>
         sorted_wrt (\<lambda>a b. fge (score a) (score b)) (rankedOn M is req) \<and>
         (clampTopN (TopN req) (int (length (survivorsOn M is req))) = 1 \<longrightarrow>
            SearchOn M is req =
              (Single
                 \<lparr>RItem = Some (Item (index (rankedOn M is req ! 0))),
                  Similarity = score (rankedOn M is req ! 0),
                  Message = ''Found item with '' @ fmt2fOn M (mulOn M (score (rankedOn M is req ! 0)) (Fin 100)) @
                            ''% similarity'',
                  Error = [],
                  RDebug = debugInfo is req (normalizeOn M (Query req)) (rankedOn M is req ! 0)
                             (int (length (filterItems is (Filters req))))\<rparr>, is)) \<and>
         (clampTopN (TopN req) (int (length (survivorsOn M is req))) \<noteq> 1 \<longrightarrow>
            (\<exists>m. SearchOn M is req = (Multi m, is) \<and>
                 int (length (Results m)) = clampTopN (TopN req) (int (length (survivorsOn M is req))) \<and>
                 (\<forall>i < length (Results m).
                    Results m ! i =
                      \<lparr>RItem = Some (Item (index (rankedOn M is req ! i))),
                       Similarity = score (rankedOn M is req ! i),
                       Message = ''Rank '' @ itoa (int i + 1) @ '' with '' @
                                 fmt2fOn M (mulOn M (score (rankedOn M is req ! i)) (Fin 100)) @ ''% similarity'',
                       Error = [],
                       RDebug = debugInfo is req (normalizeOn M (Query req)) (rankedOn M is req ! i)
                                  (int (length (filterItems is (Filters req))))\<rparr>) \<and>
                 sorted_wrt (\<lambda>a b. fge (Similarity a) (Similarity b)) (Results m)))"
proof -
  let ?k = "int (length (survivorsOn M is req))"
  let ?n = "clampTopN (TopN req) ?k"
  let ?R = "rankedOn M is req"
  let ?nq = "normalizeOn M (Query req)"
  let ?nc = "int (length (filterItems is (Filters req)))"
  have k1: "1 \<le> ?k"
    using assms(3) by (cases "survivorsOn M is req") simp_all
  have len: "int (length ?R) = ?k"
    using assms(1) by (simp add: ranked_length)
  have cand: "filterItems is (Filters req) \<noteq> []"
    using assms(3) by (auto simp: survivorsOn_def)
  note range = clampTopN_range [OF k1, of "TopN req"]
  have r2: "?n \<le> min 10 ?k"
    using range(2,3) by simp
  have ms: "mset ?R = mset (map (scoredOn M req) (survivorsOn M is req))"
    by (rule ranked_mset [OF assms(1)])
  have so: "sorted_wrt (\<lambda>a b. fge (score a) (score b)) ?R"
    by (rule ranked_sorted [OF assms(1,4)])
  have S: "SearchOn M is req =
     (if ?n > 1
      then (Multi
             \<lparr>Results = map (rankedResponseOn M is req ?nq ?nc ?R) [0..<nat ?n],
              MQuery = Query req,
              TotalFound = ?nc,
              MFilters = Filters req,
              MMessage = ''Found '' @ itoa ?nc @ '' items'' @
                (case Filters req of
                   None \<Rightarrow> []
                 | Some f \<Rightarrow> '' with filter: '' @ Description f) @
                '' matching '' @ [CHR 0x27] @ Query req @ [CHR 0x27]\<rparr>,
            is)
      else (Single (bestResponseOn M is req ?nq ?nc ?R), is))"
    using range(1) by (simp add: SearchOn_candidates [OF assms(2) cand] Let_def len)
  have single: "SearchOn M is req =
              (Single
                 \<lparr>RItem = Some (Item (index (?R ! 0))),
                  Similarity = score (?R ! 0),
                  Message = ''Found item with '' @ fmt2fOn M (mulOn M (score (?R ! 0)) (Fin 100)) @ ''% similarity'',
                  Error = [],
                  RDebug = debugInfo is req ?nq (?R ! 0) ?nc\<rparr>, is)" if "?n = 1"
    using that by (simp add: S bestResponseOn_def Let_def)
  have multi: "\<exists>m. SearchOn M is req = (Multi m, is) \<and>
                 int (length (Results m)) = ?n \<and>
                 (\<forall>i < length (Results m).
                    Results m ! i =
                      \<lparr>RItem = Some (Item (index (?R ! i))),
                       Similarity = score (?R ! i),
                       Message = ''Rank '' @ itoa (int i + 1) @ '' with '' @
                                 fmt2fOn M (mulOn M (score (?R ! i)) (Fin 100)) @ ''% similarity'',
                       Error = [],
                       RDebug = debugInfo is req ?nq (?R ! i) ?nc\<rparr>) \<and>
                 sorted_wrt (\<lambda>a b. fge (Similarity a) (Similarity b)) (Results m)" if "?n \<noteq> 1"
  proof -
    have n1: "?n > 1" using that range(1) by simp
    have "sorted_wrt (\<lambda>i j. fge (score (?R ! i)) (score (?R ! j))) [0..<nat ?n]"
    proof (rule sorted_wrt_upt)
      fix i j assume "i < j" "j < nat ?n"
      then have "j < length ?R" using range(3) len by simp
      with \<open>i < j\<close> show "fge (score (?R ! i)) (score (?R ! j))"
        using so by (simp add: sorted_wrt_iff_nth_less)
    qed
    then have "sorted_wrt (\<lambda>a b. fge (Similarity a) (Similarity b))
        (map (rankedResponseOn M is req ?nq ?nc ?R) [0..<nat ?n])"
      by (simp add: sorted_wrt_map rankedResponseOn_def Let_def)
    then show ?thesis
      using n1 by (simp add: S rankedResponseOn_def Let_def)
  qed
  show ?thesis
    using range(1) r2 range(4) ms so single multi by blast
qed

lemma queryScore_Query:
  "queryScore \<lparr>Query = Query req, Filters = None, TopN = None, Debug = None\<rparr> idx = queryScore req idx"
  by (simp add: queryScore_def)

lemma exactMachine_simps:
  "isBlankOn (exactMachine srt fmt2f) q = (TrimSpace q = [])"
  "normalizeOn (exactMachine srt fmt2f) = normalizeText"
  "scoreOn (exactMachine srt fmt2f) q idx =
     queryScore \<lparr>Query = q, Filters = None, TopN = None, Debug = None\<rparr> idx"
  "mulOn (exactMachine srt fmt2f) = fmul"
  "fmt2fOn (exactMachine srt fmt2f) = fmt2f"
  "sortOn (exactMachine srt fmt2f) = srt"
  by (simp_all add: exactMachine_def)

lemma exact_survivors: "survivorsOn (exactMachine srt fmt2f) is req = survivors is req"
  by (simp add: survivorsOn_def survivors_def exactMachine_simps queryScore_Query coarseThreshold_def)

lemma exact_scored: "scoredOn (exactMachine srt fmt2f) req = scored req"
  by (rule ext) (simp add: scoredOn_def scored_def exactMachine_simps queryScore_Query)

lemma exact_ranked:
  "rankedOn (exactMachine srt fmt2f) is req =
     srt (\<lambda>a b. fgt (score a) (score b)) (map (scored req) (survivors is req))"
  by (simp add: rankedOn_def exact_survivors exact_scored exactMachine_simps)

lemma exact_responses:
  "rankedResponseOn (exactMachine srt fmt2f) is req nq nc rs = rankedResponse fmt2f is req nq nc rs"
  "bestResponseOn (exactMachine srt fmt2f) is req nq nc rs = bestResponse fmt2f is req nq nc rs"
  by (rule ext, simp add: rankedResponseOn_def rankedResponse_def exactMachine_simps)
     (simp add: bestResponseOn_def bestResponse_def exactMachine_simps)

lemma Search_is_SearchOn:
  "Search (srt (\<lambda>a b. fgt (score a) (score b))) fmt2f is req =
     Inr (SearchOn (exactMachine srt fmt2f) is req)"
proof (cases "TrimSpace (Query req) = []")
  case True
  then show ?thesis by (simp add: Search_blank SearchOn_def exactMachine_simps)
next
  case nb: False
  show ?thesis
  proof (cases "filterItems is (Filters req) = []")
    case True
    then show ?thesis
      using nb by (simp add: Search_no_candidates SearchOn_def exactMachine_simps)
  next
    case False
    have nb': "\<not> isBlankOn (exactMachine srt fmt2f) (Query req)"
      using nb by (simp add: exactMachine_simps)
    show ?thesis
      by (simp add: Search_candidates [OF nb False] SearchOn_candidates [OF nb' False] Let_def
          exact_ranked exact_responses exactMachine_simps)
  qed
qed

lemma machine_demo_contract: "sortSliceContract (sortOn machine_demo)"
  by (simp add: machine_demo_def exactMachine_simps insertionSortBy_contract)

lemma machine_demo_score:
  "scoreOn machine_demo q idx = queryScore (request q None None) idx"
  by (simp add: machine_demo_def exactMachine_simps request_def)

lemma machine_demo_mul: "mulOn machine_demo = fmul"
  by (simp add: machine_demo_def exactMachine_simps)

lemma demo_ranked:
  "rankedOn machine_demo searcher_demo (request ''a'' None n) = [scored (request ''a'' None n) index_a]"
  "rankedOn machine_demo searcher_all (request ''a'' None n) =
     [scored (request ''a'' None n) index_a, scored (request ''a'' None n) index_lotr]"
  by (simp_all add: machine_demo_def exact_ranked demo_survivors insertionSortBy_def scored_def
      demo_scores)

theorem Search_coarse_threshold_witness:
  "sortSliceContract (sortOn machine_demo) \<and>
   \<not> isBlankOn machine_demo ''zzz'' \<and> \<not> isBlankOn machine_demo ''a'' \<and>
   filterItems searcher_demo None = [index_a, index_lotr] \<and>
   FinalScore (scoreOn machine_demo ''zzz'' index_a) = Fin 0 \<and>
   FinalScore (scoreOn machine_demo ''zzz'' index_lotr) = Fin 0 \<and>
   SearchOn machine_demo searcher_demo (request ''zzz'' None None) =
     (Single \<lparr>RItem = None, Similarity = Fin 0, Message = [],
              Error = ''No matches found for '' @ [CHR 0x27] @ ''zzz'' @ [CHR 0x27],
              RDebug = None\<rparr>, searcher_demo) \<and>
   FinalScore (scoreOn machine_demo ''a'' index_a) = Fin 1 \<and>
   FinalScore (scoreOn machine_demo ''a'' index_lotr) = Fin 0 \<and>
   outcomeMatches (fst (SearchOn machine_demo searcher_demo (request ''a'' None None)))
     = [(''a'', Fin 1)] \<and>
   outcomeErrors (fst (SearchOn machine_demo searcher_demo (request ''a'' None None))) = [] \<and>
   Search (insertionSortBy (\<lambda>a b. fgt (score a) (score b))) (\<lambda>s. []) searcher_demo
       (request ''zzz'' None None)
     = Inr (SearchOn machine_demo searcher_demo (request ''zzz'' None None))"
proof -
  have nbz: "\<not> isBlankOn machine_demo (Query (request ''zzz'' None None))"
    unfolding machine_demo_def exactMachine_simps request_simps by code_simp
  have nba: "\<not> isBlankOn machine_demo (Query (request ''a'' None None))"
    unfolding machine_demo_def exactMachine_simps request_simps by code_simp
  have c: "filterItems searcher_demo None = [index_a, index_lotr]"
    by (simp add: filterItems_None searcher_demo_def)
  have cz: "filterItems searcher_demo (Filters (request ''zzz'' None None)) \<noteq> []"
    and ca: "filterItems searcher_demo (Filters (request ''a'' None None)) \<noteq> []"
    by (simp_all add: request_simps c)
  have za: "FinalScore (queryScore (request ''zzz'' None None) index_a) = Fin 0"
    by code_simp
  have zl: "FinalScore (queryScore (request ''zzz'' None None) index_lotr) = Fin 0"
    by code_simp
  have m: "minSimilarity searcher_demo = Fin 0.3"
    by (simp add: searcher_demo_def)
  have i: "Item index_a = ''a''"
    by (simp add: index_a_def)
  have link: "Search (insertionSortBy (\<lambda>a b. fgt (score a) (score b))) (\<lambda>s. []) searcher_demo
       (request ''zzz'' None None)
     = Inr (SearchOn machine_demo searcher_demo (request ''zzz'' None None))"
    unfolding machine_demo_def by (rule Search_is_SearchOn)
  show ?thesis
    using Search_coarse_threshold [OF machine_demo_contract nbz cz]
      Search_coarse_threshold [OF machine_demo_contract nba ca]
      machine_demo_contract nbz nba link
    by (simp add: request_simps c m machine_demo_score machine_demo_mul za zl demo_scores
        demo_ranked clampTopN_def scored_def i)
qed

theorem Search_topN_ranked_witness:
  "sortSliceContract (sortOn machine_demo) \<and>
   \<not> isBlankOn machine_demo ''a'' \<and>
   survivorsOn machine_demo searcher_all (request ''a'' None (Some 5)) = [index_a, index_lotr] \<and>
   clampTopN (Some 5) 2 = 2 \<and>
   (\<exists>m. SearchOn machine_demo searcher_all (request ''a'' None (Some 5)) = (Multi m, searcher_all) \<and>
        length (Results m) = 2 \<and>
        Results m ! 0 = \<lparr>RItem = Some ''a'', Similarity = Fin 1,
                          Message = ''Rank 1 with % similarity'', Error = [], RDebug = None\<rparr> \<and>
        Results m ! 1 = \<lparr>RItem = Some ''The Lord of the Rings'', Similarity = Fin 0,
                          Message = ''Rank 2 with % similarity'', Error = [], RDebug = None\<rparr>) \<and>
   survivorsOn machine_demo searcher_demo (request ''a'' None (Some 5)) = [index_a] \<and>
   clampTopN (Some 5) 1 = 1 \<and>
   SearchOn machine_demo searcher_demo (request ''a'' None (Some 5)) =
     (Single \<lparr>RItem = Some ''a'', Similarity = Fin 1,
              Message = ''Found item with % similarity'', Error = [], RDebug = None\<rparr>,
      searcher_demo) \<and>
   Search (insertionSortBy (\<lambda>a b. fgt (score a) (score b))) (\<lambda>s. []) searcher_all
       (request ''a'' None (Some 5))
     = Inr (SearchOn machine_demo searcher_all (request ''a'' None (Some 5)))"
proof -
  let ?req = "request ''a'' None (Some 5)"
  have link: "Search (insertionSortBy (\<lambda>a b. fgt (score a) (score b))) (\<lambda>s. []) searcher_all ?req
     = Inr (SearchOn machine_demo searcher_all ?req)"
    unfolding machine_demo_def by (rule Search_is_SearchOn)
  have nb: "\<not> isBlankOn machine_demo (Query ?req)"
    unfolding machine_demo_def exactMachine_simps request_simps by code_simp
  have sa: "survivorsOn machine_demo searcher_all ?req = [index_a, index_lotr]"
    and sd: "survivorsOn machine_demo searcher_demo ?req = [index_a]"
    by (simp_all add: machine_demo_def exact_survivors demo_survivors)
  have nea: "survivorsOn machine_demo searcher_all ?req \<noteq> []"
    and ned: "survivorsOn machine_demo searcher_demo ?req \<noteq> []"
    by (simp_all add: sa sd)
  have nna: "\<forall>idx \<in> set (survivorsOn machine_demo searcher_all ?req).
               FinalScore (scoreOn machine_demo (Query ?req) idx) \<noteq> NaN"
    and nnd: "\<forall>idx \<in> set (survivorsOn machine_demo searcher_demo ?req).
               FinalScore (scoreOn machine_demo (Query ?req) idx) \<noteq> NaN"
    by (simp_all add: sa sd request_simps machine_demo_score demo_scores)
  have c2: "clampTopN (Some 5) 2 = 2" and c1: "clampTopN (Some 5) 1 = 1"
    by (simp_all add: clampTopN_def)
  have it: "itoa 1 = ''1''" "itoa 2 = ''2''"
    by code_simp+
  have i: "Item index_a = ''a''" "Item index_lotr = ''The Lord of the Rings''"
    by (simp_all add: index_a_def index_lotr_def)
  have d: "debugInfo searcher_all ?req nq r nc = None" "debugInfo searcher_demo ?req nq r nc = None"
    for nq r nc
    by (simp_all add: debugInfo_def searcher_all_def searcher_demo_def request_simps)
  have p: "fmt2fOn machine_demo s = []" for s
    by (simp add: machine_demo_def exactMachine_simps)
  from Search_topN_ranked [OF machine_demo_contract nb nea nna]
  obtain m where m: "SearchOn machine_demo searcher_all ?req = (Multi m, searcher_all)"
      "int (length (Results m)) = 2"
      "\<forall>i < length (Results m).
         Results m ! i =
           \<lparr>RItem = Some (Item (index (rankedOn machine_demo searcher_all ?req ! i))),
            Similarity = score (rankedOn machine_demo searcher_all ?req ! i),
            Message = ''Rank '' @ itoa (int i + 1) @ '' with '' @
                      fmt2fOn machine_demo (mulOn machine_demo (score (rankedOn machine_demo searcher_all ?req ! i)) (Fin 100)) @
                      ''% similarity'',
            Error = [],
            RDebug = debugInfo searcher_all ?req (normalizeOn machine_demo (Query ?req))
                       (rankedOn machine_demo searcher_all ?req ! i)
                       (int (length (filterItems searcher_all (Filters ?req))))\<rparr>"
    by (auto simp: sa request_simps c2)
  have l: "length (Results m) = 2"
    using m(2) by simp
  have e0: "Results m ! 0 = \<lparr>RItem = Some ''a'', Similarity = Fin 1,
                          Message = ''Rank 1 with % similarity'', Error = [], RDebug = None\<rparr>"
    using m(3) l by (simp add: demo_ranked scored_def demo_scores i d p it)
  have e1: "Results m ! 1 = \<lparr>RItem = Some ''The Lord of the Rings'', Similarity = Fin 0,
                          Message = ''Rank 2 with % similarity'', Error = [], RDebug = None\<rparr>"
    using m(3) l by (simp add: demo_ranked scored_def demo_scores i d p it)
  have single: "SearchOn machine_demo searcher_demo ?req =
     (Single \<lparr>RItem = Some ''a'', Similarity = Fin 1,
              Message = ''Found item with % similarity'', Error = [], RDebug = None\<rparr>,
      searcher_demo)"
    using Search_topN_ranked [OF machine_demo_contract nb ned nnd]
    by (simp add: sd request_simps c1 demo_ranked scored_def demo_scores i d p)
  show ?thesis
    using machine_demo_contract nb m(1) l e0 e1 single link
    by (simp add: sa sd c1 c2 request_simps)
qed

end
